theory Spec2Isabelle
  imports Complex_Main "HOL-Library.AList"
begin

section \<open>JavaScript values\<close>

text \<open>
  The RAML client generator is JavaScript, so its arguments are untyped. The values that
  reach the validator are modelled by a datatype. A number is its exact (rational) value or
  one of the three special values; rounding to a double is not modelled and \<open>-0\<close> is
  \<open>0\<close>. A string is a list of characters, each counted as one unit of \<open>length\<close>. A
  date carries its time value and a regular expression its source text. Objects carry
  their own data properties in insertion order; prototypes, getters and user-defined
  \<open>toString\<close>/\<open>valueOf\<close> are not modelled.
\<close>

datatype jsnum = NaN | PosInf | NegInf | Fin rat

datatype jsval =
    Undefined
  | Null
  | JBool bool
  | JNum jsnum
  | JStr string
  | JDate int
  | JRegExp string
  | JArr "jsval list"
  | JObj "(string \<times> jsval) list"

text \<open>
  What the JavaScript engine and the libraries \<open>url\<close> and \<open>querystring\<close> compute is not
  part of the repository. The pieces that have no closed form here are taken as a
  parameter: the text of a finite number that prints with a fraction or an exponent, the
  text of a date, the numeric value of a string, \<open>RegExp.prototype.test\<close> (pattern source,
  subject), \<open>url.resolve\<close> and \<open>querystring.stringify\<close>.
\<close>

text \<open>
  The functions that the generator makes are of five kinds: the request function
  returned by \<open>httpRequest\<close>, the \<open>query\<close> helper, the \<open>headers\<close> helper, the function of a
  dynamic route and the root client. A function has own properties that a program cannot
  write, \<open>length\<close> in every engine and, engine by engine, \<open>name\<close>, \<open>arguments\<close> and
  \<open>caller\<close>; which they are and what they hold is the host's \<open>fixed_property\<close>.
\<close>

datatype fkind = RequestFn | QueryFn | HeadersFn | RouteFn | ClientFn

record host =
  number_text :: "rat \<Rightarrow> string"
  date_text :: "int \<Rightarrow> string"
  string_number :: "string \<Rightarrow> jsnum"
  regexp_test :: "string \<Rightarrow> string \<Rightarrow> bool"
  url_resolve :: "string \<Rightarrow> string \<Rightarrow> string"
  qs_stringify :: "jsval \<Rightarrow> string"
  fixed_property :: "fkind \<Rightarrow> string \<Rightarrow> jsval option"

subsection \<open>Decimal text of integers\<close>

definition digit_char :: "nat \<Rightarrow> char" where
  "digit_char d = char_of (48 + d)"

definition is_digit :: "char \<Rightarrow> bool" where
  "is_digit c = (48 \<le> (of_char c :: nat) \<and> (of_char c :: nat) \<le> 57)"

definition digit_val :: "char \<Rightarrow> nat" where
  "digit_val c = of_char c - 48"

function show_nat :: "nat \<Rightarrow> string" where
  "show_nat n = (if n < 10 then [digit_char n] else show_nat (n div 10) @ [digit_char (n mod 10)])"
  by pat_completeness auto
termination
  by (relation "measure (\<lambda>n. n)") auto

declare show_nat.simps [simp del]

definition show_int :: "int \<Rightarrow> string" where
  "show_int i = (if i < 0 then CHR ''-'' # show_nat (nat (- i)) else show_nat (nat i))"

subsection \<open>ToString, ToNumber, strict equality, comparison\<close>

definition is_integer :: "rat \<Rightarrow> bool" where
  "is_integer q = (of_int \<lfloor>q\<rfloor> = q)"

fun join_with :: "string \<Rightarrow> string list \<Rightarrow> string" where
  "join_with sep [] = []"
| "join_with sep [x] = x"
| "join_with sep (x # y # ys) = x @ sep @ join_with sep (y # ys)"

text \<open>
  \<open>ToString\<close>. A finite integer below \<open>10\<^sup>2\<^sup>1\<close> in magnitude prints as its decimal
  digits; every other finite number prints as the host says (with a fraction, or with an
  exponent from \<open>10\<^sup>2\<^sup>1\<close> on). An array prints as \<open>join(',')\<close> of its elements, where
  \<open>null\<close> and \<open>undefined\<close> elements print as the empty string.
\<close>

fun to_string :: "host \<Rightarrow> jsval \<Rightarrow> string" where
  "to_string H Undefined = ''undefined''"
| "to_string H Null = ''null''"
| "to_string H (JBool b) = (if b then ''true'' else ''false'')"
| "to_string H (JNum NaN) = ''NaN''"
| "to_string H (JNum PosInf) = ''Infinity''"
| "to_string H (JNum NegInf) = ''-Infinity''"
| "to_string H (JNum (Fin q)) =
     (if is_integer q \<and> \<bar>q\<bar> < 10 ^ 21 then show_int \<lfloor>q\<rfloor> else number_text H q)"
| "to_string H (JStr s) = s"
| "to_string H (JDate t) = date_text H t"
| "to_string H (JRegExp src) = ''/'' @ src @ ''/''"
| "to_string H (JArr xs) =
     join_with '','' (map (\<lambda>x. if x = Undefined \<or> x = Null then [] else to_string H x) xs)"
| "to_string H (JObj kvs) = ''[object Object]''"

text \<open>\<open>ToNumber\<close>, the unary \<open>+\<close>. Objects other than dates are not converted here: NaN.\<close>

fun to_number :: "host \<Rightarrow> jsval \<Rightarrow> jsnum" where
  "to_number H Undefined = NaN"
| "to_number H Null = Fin 0"
| "to_number H (JBool b) = Fin (if b then 1 else 0)"
| "to_number H (JNum n) = n"
| "to_number H (JStr s) = string_number H s"
| "to_number H (JDate t) = Fin (of_int t)"
| "to_number H (JRegExp src) = NaN"
| "to_number H (JArr xs) = string_number H (to_string H (JArr xs))"
| "to_number H (JObj kvs) = NaN"

text \<open>
  \<open>===\<close>. Two values of different types are never equal, \<open>NaN\<close> is not equal to itself.
  Two objects are equal when they are the same reference, which this value model does
  not carry; every use below has a primitive on one side, and the model answers
  \<open>False\<close> for two objects.
\<close>

definition strict_eq :: "jsval \<Rightarrow> jsval \<Rightarrow> bool" where
  "strict_eq a b = (case a of
       Undefined \<Rightarrow> b = Undefined
     | Null \<Rightarrow> b = Null
     | JBool x \<Rightarrow> b = JBool x
     | JNum x \<Rightarrow> x \<noteq> NaN \<and> b = JNum x
     | JStr x \<Rightarrow> b = JStr x
     | _ \<Rightarrow> False)"

text \<open>\<open>value == null\<close>: true of \<open>null\<close> and \<open>undefined\<close> only.\<close>

definition is_null :: "jsval \<Rightarrow> bool" where
  "is_null v = (v = Null \<or> v = Undefined)"

text \<open>\<open><\<close> on two numbers; false when either is \<open>NaN\<close>.\<close>

fun num_less :: "jsnum \<Rightarrow> jsnum \<Rightarrow> bool" where
  "num_less NaN _ = False"
| "num_less _ NaN = False"
| "num_less (Fin a) (Fin b) = (a < b)"
| "num_less (Fin a) PosInf = True"
| "num_less NegInf (Fin b) = True"
| "num_less NegInf PosInf = True"
| "num_less _ _ = False"

text \<open>\<open>a < b\<close> and \<open>a > b\<close> where the operands are not both strings: both go through ToNumber.\<close>

definition js_less :: "host \<Rightarrow> jsval \<Rightarrow> jsval \<Rightarrow> bool" where
  "js_less H a b = num_less (to_number H a) (to_number H b)"

definition js_greater :: "host \<Rightarrow> jsval \<Rightarrow> jsval \<Rightarrow> bool" where
  "js_greater H a b = num_less (to_number H b) (to_number H a)"

subsection \<open>parseInt\<close>

definition is_space :: "char \<Rightarrow> bool" where
  "is_space c = ((of_char c :: nat) \<in> {9, 10, 11, 12, 13, 32})"

fun digits_value :: "nat \<Rightarrow> string \<Rightarrow> nat" where
  "digits_value acc [] = acc"
| "digits_value acc (c # cs) = (if is_digit c then digits_value (acc * 10 + digit_val c) cs else acc)"

text \<open>
  \<open>parseInt(string, 10)\<close> on a text: leading white space is dropped, then an optional
  sign, then the longest run of decimal digits is read; no digit gives \<open>NaN\<close>.
\<close>

definition parse_digits :: "string \<Rightarrow> jsnum" where
  "parse_digits s = (case s of
       [] \<Rightarrow> NaN
     | c # cs \<Rightarrow> if is_digit c then Fin (of_nat (digits_value 0 s)) else NaN)"

definition negate :: "jsnum \<Rightarrow> jsnum" where
  "negate n = (case n of NaN \<Rightarrow> NaN | PosInf \<Rightarrow> NegInf | NegInf \<Rightarrow> PosInf | Fin q \<Rightarrow> Fin (- q))"

definition parse_int_text :: "string \<Rightarrow> jsnum" where
  "parse_int_text s = (case dropWhile is_space s of
       [] \<Rightarrow> NaN
     | c # cs \<Rightarrow> if c = CHR ''-'' then negate (parse_digits cs)
                else if c = CHR ''+'' then parse_digits cs
                else parse_digits (c # cs))"

definition parseInt :: "host \<Rightarrow> jsval \<Rightarrow> jsnum" where
  "parseInt H v = parse_int_text (to_string H v)"

section \<open>The parameter validator\<close>

text \<open>
  \<open>validateParam\<close> throws. Each \<open>throw\<close> of the source is one error value, named as
  the specification names it:
  \<^item> \<open>MissingRequired\<close>: \<open>ReferenceError(displayName + ' is not defined')\<close>;
  \<^item> \<open>TypeMismatch\<close>: the four \<open>TypeError('Expected a ...')\<close>;
  \<^item> \<open>EnumViolation\<close>: \<open>Error('Expected a value of ...')\<close>;
  \<^item> \<open>LengthViolation\<close>: \<open>Error('Expected a minimum/maximum length of ...')\<close>;
  \<^item> \<open>PatternViolation\<close>: \<open>Error('Expected the value to match ...')\<close>;
  \<^item> \<open>RangeViolation\<close>: \<open>Error('Expected a value larger/smaller than ...')\<close>;
  \<^item> \<open>InsufficientArguments\<close>: \<open>Error('Insufficient parameters, ...')\<close> of a route function;
  \<^item> \<open>InvalidHeaders\<close>: \<open>Error('Ajax headers must be provided as an object')\<close>;
  \<^item> \<open>EngineTypeError\<close>: the engine's own \<open>TypeError\<close> for a property read on
    \<open>undefined\<close> or \<open>null\<close>.
  The message texts are not modelled.
\<close>

datatype error =
    MissingRequired
  | TypeMismatch
  | EnumViolation
  | LengthViolation
  | PatternViolation
  | RangeViolation
  | InsufficientArguments
  | InvalidHeaders
  | EngineTypeError

text \<open>
  A parameter of the RAML AST. Every facet is a JavaScript value, \<open>Undefined\<close> when the
  facet is not set: the validator itself decides which values of a facet count.
\<close>

record param =
  displayName :: jsval
  type :: jsval
  required :: jsval
  enum :: jsval
  minLength :: jsval
  maxLength :: jsval
  pattern :: jsval
  minimum :: jsval
  maximum :: jsval

subsection \<open>The helpers of underscore\<close>

definition isString :: "jsval \<Rightarrow> bool" where
  "isString v = (case v of JStr s \<Rightarrow> True | _ \<Rightarrow> False)"

definition isArray :: "jsval \<Rightarrow> bool" where
  "isArray v = (case v of JArr xs \<Rightarrow> True | _ \<Rightarrow> False)"

definition isRegExp :: "jsval \<Rightarrow> bool" where
  "isRegExp v = (case v of JRegExp src \<Rightarrow> True | _ \<Rightarrow> False)"

definition isDate :: "jsval \<Rightarrow> bool" where
  "isDate v = (case v of JDate t \<Rightarrow> True | _ \<Rightarrow> False)"

definition isBoolean :: "jsval \<Rightarrow> bool" where
  "isBoolean v = (case v of JBool b \<Rightarrow> True | _ \<Rightarrow> False)"

text \<open>\<open>_.contains(list, target)\<close>: some element is \<open>===\<close> to the target.\<close>

definition contains :: "jsval \<Rightarrow> jsval \<Rightarrow> bool" where
  "contains l target = (case l of JArr xs \<Rightarrow> list_ex (\<lambda>x. strict_eq x target) xs | _ \<Rightarrow> False)"

text \<open>\<open>value.length\<close> of a string.\<close>

definition length_of :: "jsval \<Rightarrow> jsval" where
  "length_of v = (case v of JStr s \<Rightarrow> JNum (Fin (of_nat (length s)))
                          | JArr xs \<Rightarrow> JNum (Fin (of_nat (length xs)))
                          | _ \<Rightarrow> Undefined)"

text \<open>\<open>pattern.test(value)\<close> of a regular expression.\<close>

definition test :: "host \<Rightarrow> jsval \<Rightarrow> jsval \<Rightarrow> bool" where
  "test H pat v = (case pat of JRegExp src \<Rightarrow> regexp_test H src (to_string H v) | _ \<Rightarrow> False)"

subsection \<open>validateParam\<close>

definition validateParam :: "host \<Rightarrow> jsval \<Rightarrow> param \<Rightarrow> error + bool" where
  "validateParam H value param =
    (if strict_eq (required param) (JBool True) \<and> is_null value then Inl MissingRequired
     else if \<not> is_null value then
       (if strict_eq (type param) (JStr ''string'') then
          (if \<not> isString value then Inl TypeMismatch
           else if isArray (enum param) \<and> \<not> contains (enum param) value then Inl EnumViolation
           else if strict_eq (minLength param) (JNum (to_number H (minLength param)))
                   \<and> js_less H (length_of value) (minLength param) then Inl LengthViolation
           else if strict_eq (maxLength param) (JNum (to_number H (maxLength param)))
                   \<and> js_greater H (length_of value) (maxLength param) then Inl LengthViolation
           else if isRegExp (pattern param) \<and> \<not> test H (pattern param) value
                then Inl PatternViolation
           else Inr True)
        else if strict_eq (type param) (JStr ''integer'') \<or> strict_eq (type param) (JStr ''number'') then
          (if (if strict_eq (type param) (JStr ''number'')
               then \<not> strict_eq value (JNum (to_number H value))
               else \<not> strict_eq value (JNum (parseInt H value)))
             then Inl TypeMismatch
           else if strict_eq (minimum param) (JNum (to_number H (minimum param)))
                   \<and> js_less H value (minimum param) then Inl RangeViolation
           else if strict_eq (maximum param) (JNum (to_number H (maximum param)))
                   \<and> js_greater H value (maximum param) then Inl RangeViolation
           else Inr True)
        else if strict_eq (type param) (JStr ''date'') then
          (if \<not> isDate value then Inl TypeMismatch else Inr True)
        else if strict_eq (type param) (JStr ''boolean'') then
          (if \<not> isBoolean value then Inl TypeMismatch else Inr True)
        else Inr True)
     else Inr True)"

subsection \<open>Vocabulary for stating the validator's properties\<close>

text \<open>\<open>ToBoolean\<close>: what a condition such as \<open>if (param.required)\<close> would test.\<close>

definition truthy :: "jsval \<Rightarrow> bool" where
  "truthy v = (case v of
       Undefined \<Rightarrow> False
     | Null \<Rightarrow> False
     | JBool b \<Rightarrow> b
     | JNum n \<Rightarrow> n \<noteq> NaN \<and> n \<noteq> Fin 0
     | JStr s \<Rightarrow> s \<noteq> []
     | _ \<Rightarrow> True)"

text \<open>A number lies below a declared numeric minimum, or above a declared numeric maximum.\<close>

definition violates_minimum :: "jsval \<Rightarrow> jsval \<Rightarrow> bool" where
  "violates_minimum v lo = (case (v, lo) of
       (JNum x, JNum m) \<Rightarrow> m \<noteq> NaN \<and> num_less x m
     | _ \<Rightarrow> False)"

definition violates_maximum :: "jsval \<Rightarrow> jsval \<Rightarrow> bool" where
  "violates_maximum v hi = (case (v, hi) of
       (JNum x, JNum m) \<Rightarrow> m \<noteq> NaN \<and> num_less m x
     | _ \<Rightarrow> False)"

text \<open>The parameter \<open>{type: t}\<close>, every other facet unset.\<close>

definition bare_param :: "jsval \<Rightarrow> param" where
  "bare_param t = \<lparr>displayName = Undefined, type = t, required = Undefined, enum = Undefined,
     minLength = Undefined, maxLength = Undefined, pattern = Undefined,
     minimum = Undefined, maximum = Undefined\<rparr>"

text \<open>
  A host for evaluating examples. Its \<open>url_resolve\<close> is \<open>url.resolve\<close> on a base URI
  with an empty path, its \<open>qs_stringify\<close> is \<open>querystring.stringify\<close> on an object of
  plain strings, its \<open>number_text\<close> is right at \<open>10\<^sup>2\<^sup>1\<close>, the one number whose text
  an example reads; the date text and the regular expressions are stand-ins that no
  example reaches. Its functions are those of V8: \<open>length\<close> is the number of formal
  parameters (\<open>function (data, done)\<close>, \<open>function (query)\<close>, \<open>function (headers)\<close>,
  \<open>function ()\<close>, \<open>function (path, context)\<close>), \<open>name\<close> is \<open>client\<close> for the function bound
  by \<open>var client\<close> and empty for the others, \<open>arguments\<close> and \<open>caller\<close> are \<open>null\<close>.
\<close>

definition example_host :: host where
  "example_host = \<lparr>
     number_text = (\<lambda>q. ''1e+21''),
     date_text = (\<lambda>t. ''Thu Jan 01 1970''),
     string_number = parse_int_text,
     regexp_test = (\<lambda>src s. src = s),
     url_resolve = (\<lambda>base rel.
       if rel \<noteq> [] \<and> hd rel = CHR ''?'' then base @ rel else base @ ''/'' @ rel),
     qs_stringify = (\<lambda>v. case v of
         JObj kvs \<Rightarrow>
           join_with ''&'' (map (\<lambda>(k, x). k @ ''='' @ (case x of JStr s \<Rightarrow> s | _ \<Rightarrow> [])) kvs)
       | _ \<Rightarrow> []),
     fixed_property = (\<lambda>kind k.
       if k = ''length'' then
         Some (JNum (Fin (case kind of RequestFn \<Rightarrow> 2 | QueryFn \<Rightarrow> 1 | HeadersFn \<Rightarrow> 1
                                     | RouteFn \<Rightarrow> 0 | ClientFn \<Rightarrow> 2)))
       else if k = ''name'' then Some (JStr (case kind of ClientFn \<Rightarrow> ''client'' | _ \<Rightarrow> []))
       else if k = ''arguments'' \<or> k = ''caller'' then Some Null
       else None)\<rparr>"

section \<open>The URI template function\<close>

text \<open>
  \<open>template(string, params, context)\<close> builds the regular expression
  \<open>{(k1|...|kn)}\<close> from the keys of \<open>params\<close>, each escaped so that it matches as
  plain text, and replaces every match from left to right. \<open>params\<close> is an object
  (its entries in key order) or a falsy value (\<open>None\<close>).
\<close>

type_synonym params = "(string \<times> param) list"

text \<open>
  The alternatives of the group. \<open>join('|')\<close> of no key is the empty text, and the
  group \<open>()\<close> matches the empty text: one alternative.
\<close>

definition alternatives :: "string list \<Rightarrow> string list" where
  "alternatives ks = (if ks = [] then [[]] else ks)"

text \<open>
  The match of \<open>(k1|...|kn)}\<close> at the text after an opening brace: the first
  alternative, in order, that is followed by the closing brace.
\<close>

fun match_tag :: "string list \<Rightarrow> string \<Rightarrow> string option" where
  "match_tag [] cs = None"
| "match_tag (k # ks) cs =
     (if take (length k + 1) cs = k @ ''}'' then Some k else match_tag ks cs)"

text \<open>
  \<open>String.prototype.replace\<close> with a global expression and a callback. The callback
  gets the captured parameter name; it may throw, and it carries the state \<open>'s\<close> that
  the closure of the source keeps in \<open>index\<close>. The scan resumes after each match.
\<close>

function replace :: "string list \<Rightarrow> (string \<Rightarrow> 's \<Rightarrow> error + string \<times> 's) \<Rightarrow> 's \<Rightarrow> string
    \<Rightarrow> error + string" where
  "replace alts cb st [] = Inr []"
| "replace alts cb st (c # cs) =
     (case (if c = CHR ''{'' then match_tag alts cs else None) of
        Some k \<Rightarrow>
          (case cb k st of
             Inl e \<Rightarrow> Inl e
           | Inr (r, st') \<Rightarrow>
               (case replace alts cb st' (drop (length k + 1) cs) of
                  Inl e \<Rightarrow> Inl e
                | Inr out \<Rightarrow> Inr (r @ out)))
      | None \<Rightarrow>
          (case replace alts cb st cs of
             Inl e \<Rightarrow> Inl e
           | Inr out \<Rightarrow> Inr (c # out)))"
  by pat_completeness auto
termination
  by (relation "measure (\<lambda>(alts, cb, st, s). length s)") auto

text \<open>\<open>context[index]\<close> of an array: \<open>undefined\<close> out of range.\<close>

definition element :: "jsval list \<Rightarrow> int \<Rightarrow> jsval" where
  "element xs i = (if 0 \<le> i \<and> i < int (length xs) then xs ! nat i else Undefined)"

text \<open>
  \<open>context[param]\<close> of a value that is not an array: an own property of an object,
  \<open>undefined\<close> when the object has none of that name; a \<open>TypeError\<close> of the engine
  on \<open>undefined\<close> and \<open>null\<close>. The properties of the other primitives are not modelled.
\<close>

definition property :: "jsval \<Rightarrow> string \<Rightarrow> error + jsval" where
  "property v k = (case v of
       JObj kvs \<Rightarrow> (case map_of kvs k of Some x \<Rightarrow> Inr x | None \<Rightarrow> Inr Undefined)
     | Undefined \<Rightarrow> Inl EngineTypeError
     | Null \<Rightarrow> Inl EngineTypeError
     | _ \<Rightarrow> Inr Undefined)"

text \<open>
  \<open>validateParam(value, params[param])\<close>: a name that \<open>params\<close> does not hold gives
  \<open>undefined\<close>, and the read of \<open>param.required\<close> throws.
\<close>

definition validate_declared :: "host \<Rightarrow> jsval \<Rightarrow> params \<Rightarrow> string \<Rightarrow> error + bool" where
  "validate_declared H v ps k = (case map_of ps k of
       None \<Rightarrow> Inl EngineTypeError
     | Some p \<Rightarrow> validateParam H v p)"

text \<open>The text that \<open>replace\<close> puts in: the callback's result through ToString.\<close>

definition replacement :: "host \<Rightarrow> jsval \<Rightarrow> string" where
  "replacement H v = to_string H (if is_null v then JStr [] else v)"

definition by_index :: "host \<Rightarrow> params \<Rightarrow> jsval list \<Rightarrow> string \<Rightarrow> int \<Rightarrow> error + string \<times> int" where
  "by_index H ps xs k index =
     (case validate_declared H (element xs (index + 1)) ps k of
        Inl e \<Rightarrow> Inl e
      | Inr ok \<Rightarrow> Inr (replacement H (element xs (index + 1)), index + 1))"

definition by_name :: "host \<Rightarrow> params \<Rightarrow> jsval \<Rightarrow> string \<Rightarrow> unit \<Rightarrow> error + string \<times> unit" where
  "by_name H ps ctx k u =
     (case property ctx k of
        Inl e \<Rightarrow> Inl e
      | Inr v \<Rightarrow>
          (case validate_declared H v ps k of
             Inl e \<Rightarrow> Inl e
           | Inr ok \<Rightarrow> Inr (replacement H v, ())))"

definition template :: "host \<Rightarrow> string \<Rightarrow> params option \<Rightarrow> jsval \<Rightarrow> error + string" where
  "template H string params context =
     (case params of
        None \<Rightarrow> Inr string
      | Some ps \<Rightarrow>
          (case context of
             JArr xs \<Rightarrow> replace (alternatives (map fst ps)) (by_index H ps xs) (- 1) string
           | _ \<Rightarrow> replace (alternatives (map fst ps)) (by_name H ps context) () string))"

text \<open>The text holds the token \<open>{}\<close>.\<close>

fun has_empty_tag :: "string \<Rightarrow> bool" where
  "has_empty_tag (a # b # cs) = ((a = CHR ''{'' \<and> b = CHR ''}'') \<or> has_empty_tag (b # cs))"
| "has_empty_tag _ = False"

section \<open>The generated client\<close>

subsection \<open>Path nodes, resources, functions\<close>

text \<open>
  \<open>nodes\<close> is the array of path fragments that the generator passes around, with the
  meta data it attaches to the array itself: \<open>baseUri\<close>, and \<open>query\<close> and \<open>headers\<close>
  once a helper has claimed them (\<open>None\<close>: the array has no such key, which is what
  \<open>'query' in nodes\<close> tests). The functions of the client keep references to such
  arrays and write to them, so the arrays live in a heap and are named by their address;
  \<open>_.extend([], nodes, ...)\<close> allocates a copy.
\<close>

record nodes =
  segments :: "string list"
  baseUri :: string
  query :: "jsval option"
  headers :: "jsval option"

type_synonym heap = "nodes list"

definition alloc :: "nodes \<Rightarrow> heap \<Rightarrow> nat \<times> heap" where
  "alloc ns h = (length h, h @ [ns])"

text \<open>A method of the AST; only its field \<open>method\<close> is read.\<close>

datatype api_method = Method (method_name: string)

type_synonym methods = "(string \<times> api_method) list"

text \<open>
  A resource of the sanitized AST: its \<open>uriParameters\<close> (\<open>None\<close> when the key is
  missing), its methods by verb and its nested resources by route, in key order.
\<close>

datatype resource =
  Resource (uriParameters: "params option") (methods: methods)
    (resources: "(string \<times> resource) list")

text \<open>
  The function values of the client, each with what its closure captures:
  \<^item> \<open>Request fullUrl method nodes\<close>: the function returned by \<open>httpRequest\<close>;
  \<^item> \<open>Query routeNodes methods\<close> and \<open>Headers routeNodes methods\<close>: the helpers;
  \<^item> \<open>Route routeNodes route resource templateCount\<close>: the function of a dynamic route;
  \<^item> \<open>Client nodes\<close>: the root function.
\<close>

datatype func =
    Request string api_method nat
  | Query nat methods
  | Headers nat methods
  | Route nat string resource nat
  | Client nat

definition kind_of :: "func \<Rightarrow> fkind" where
  "kind_of f = (case f of
       Request u m a \<Rightarrow> RequestFn
     | Query a ms \<Rightarrow> QueryFn
     | Headers a ms \<Rightarrow> HeadersFn
     | Route a r res n \<Rightarrow> RouteFn
     | Client a \<Rightarrow> ClientFn)"

text \<open>
  What a context of the generator can be: an object, which is its own enumerable
  properties in insertion order and its call behaviour when it is a function; or a
  primitive value, which is what reading a fixed property of a function gives. The
  properties that an object inherits (\<open>Object.prototype\<close>, \<open>Function.prototype\<close>, the
  accessor \<open>__proto__\<close>), the property \<open>prototype\<close> of a function, which takes writes
  and has no enumerable property, and the properties of the wrappers of numbers and
  booleans are not modelled.
\<close>

datatype obj =
    Obj (call: "func option") (props: "(string \<times> obj) list")
  | Prim jsval
where
  "call (Prim v) = None"
| "props (Prim v) = []"

text \<open>
  The options object of a request (its \<open>data\<close> left out), and the sanitized AST that
  \<open>generateClient\<close> reads.
\<close>

record options =
  url :: string
  http_method :: string
  sent_headers :: jsval

record ast =
  ast_baseUri :: string
  ast_resources :: "(string \<times> resource) list"

subsection \<open>Reading and writing properties\<close>

text \<open>The own property of an object under a name.\<close>

definition get_prop :: "obj \<Rightarrow> string \<Rightarrow> obj option" where
  "get_prop ob k = map_of (props ob) k"

text \<open>The fixed property of a function under a name, if it has one.\<close>

definition fixed :: "host \<Rightarrow> obj \<Rightarrow> string \<Rightarrow> jsval option" where
  "fixed H ob k = (case call ob of None \<Rightarrow> None | Some f \<Rightarrow> fixed_property H (kind_of f) k)"

text \<open>
  The source is not in strict mode. A write \<open>ob[k] = v\<close> to a fixed property of a
  function, or to any property of a primitive, is dropped without an error; a write to
  \<open>null\<close> or \<open>undefined\<close> throws the engine's \<open>TypeError\<close>.
\<close>

definition writable :: "host \<Rightarrow> obj \<Rightarrow> string \<Rightarrow> bool" where
  "writable H ob k = (case ob of Prim p \<Rightarrow> False | Obj f ps \<Rightarrow> fixed H ob k = None)"

definition put :: "host \<Rightarrow> string \<Rightarrow> obj \<Rightarrow> obj \<Rightarrow> obj" where
  "put H k v ob = (if writable H ob k then Obj (call ob) (AList.update k v (props ob)) else ob)"

definition is_nullish :: "obj \<Rightarrow> bool" where
  "is_nullish ob = (case ob of Prim p \<Rightarrow> is_null p | Obj f ps \<Rightarrow> False)"

definition assign :: "host \<Rightarrow> string \<Rightarrow> obj \<Rightarrow> obj \<Rightarrow> error + obj" where
  "assign H k v ob = (if is_nullish ob then Inl EngineTypeError else Inr (put H k v ob))"

text \<open>
  A read \<open>ob[k]\<close>: the fixed property of a function, else the own property, else
  \<open>undefined\<close>. Of a string it gives the length and the characters; a read of \<open>null\<close> or
  \<open>undefined\<close> throws.
\<close>

definition primitive_property :: "jsval \<Rightarrow> string \<Rightarrow> jsval" where
  "primitive_property p k = (case p of
       JStr s \<Rightarrow>
         (if k = ''length'' then JNum (Fin (of_nat (length s)))
          else (case find (\<lambda>i. show_nat i = k) [0..<length s] of
                  Some i \<Rightarrow> JStr [s ! i]
                | None \<Rightarrow> Undefined))
     | _ \<Rightarrow> Undefined)"

definition read_prop :: "host \<Rightarrow> obj \<Rightarrow> string \<Rightarrow> error + obj" where
  "read_prop H ob k = (case ob of
       Prim p \<Rightarrow> if is_null p then Inl EngineTypeError else Inr (Prim (primitive_property p k))
     | Obj f ps \<Rightarrow>
         (case fixed H ob k of
            Some v \<Rightarrow> Inr (Prim v)
          | None \<Rightarrow> (case map_of ps k of Some x \<Rightarrow> Inr x | None \<Rightarrow> Inr (Prim Undefined))))"

text \<open>What \<open>||\<close> and \<open>if (source)\<close> test: every object is truthy.\<close>

definition truthy_obj :: "obj \<Rightarrow> bool" where
  "truthy_obj ob = (case ob of Prim p \<Rightarrow> truthy p | Obj f ps \<Rightarrow> True)"

text \<open>
  An object is held by reference: when \<open>target\<close> is the object that \<open>ob[k]\<close> holds and the
  generator has written to \<open>target\<close>, \<open>ob\<close> shows it. A primitive is not a reference.
\<close>

definition held :: "string \<Rightarrow> obj \<Rightarrow> obj \<Rightarrow> obj" where
  "held k target ob = (case target of
       Prim p \<Rightarrow> ob
     | Obj f ps \<Rightarrow> Obj (call ob) (AList.update k target (props ob)))"

text \<open>
  \<open>_.extend(f, source)\<close>: when the source is truthy, every enumerable property of the
  source is written to \<open>f\<close>; those of a string are its characters.
\<close>

definition extend :: "host \<Rightarrow> obj \<Rightarrow> obj \<Rightarrow> obj" where
  "extend H f source = (case source of
       Obj g ps \<Rightarrow> fold (\<lambda>(k, v) ob. put H k v ob) ps f
     | Prim (JStr s) \<Rightarrow>
         fold (\<lambda>i ob. put H (show_nat i) (Prim (JStr [s ! i])) ob) [0..<length s] f
     | Prim p \<Rightarrow> f)"

definition HTTP_METHODS :: "string list" where
  "HTTP_METHODS = [''get'', ''head'', ''put'', ''post'', ''patch'', ''delete'']"

definition RETURN_PROPERTY :: string where
  "RETURN_PROPERTY = ''@return''"

text \<open>The keys of \<open>RESERVED_METHODS\<close>, which \<open>_.has\<close> tests.\<close>

definition RESERVED_METHODS :: "string list" where
  "RESERVED_METHODS = HTTP_METHODS @ [''headers'', ''query'']"

definition httpMethods :: methods where
  "httpMethods = map (\<lambda>m. (m, Method m)) HTTP_METHODS"

subsection \<open>Requests\<close>

text \<open>
  \<open>httpRequest\<close> resolves the URL when the function is made; the function it returns
  reads \<open>nodes.headers\<close> when it is called. \<open>send\<close> is the options object that the call
  hands to the \<open>ajax\<close> middleware.
\<close>

definition httpRequest :: "host \<Rightarrow> heap \<Rightarrow> nat \<Rightarrow> api_method \<Rightarrow> func" where
  "httpRequest H h a m =
     (let fullUrl = url_resolve H (baseUri (h ! a))
            (dropWhile (\<lambda>c. c = CHR ''/'') (join_with ''/'' (segments (h ! a))))
      in Request
           (case query (h ! a) of
              Some (JStr q) \<Rightarrow> url_resolve H fullUrl (''?'' @ q)
            | _ \<Rightarrow> fullUrl)
           m a)"

definition send :: "heap \<Rightarrow> func \<Rightarrow> options option" where
  "send h f = (case f of
       Request fullUrl m a \<Rightarrow>
         Some \<lparr>url = fullUrl, http_method = method_name m,
               sent_headers = (case headers (h ! a) of None \<Rightarrow> Undefined | Some v \<Rightarrow> v)\<rparr>
     | _ \<Rightarrow> None)"

subsection \<open>attachQuery, attachHeaders, attachMethods\<close>

text \<open>
  A context is written to in place, and a throw leaves it as far as it was written. The
  attach functions therefore give the error thrown, if any, and the context as it then
  is, together with the heap.

  The three functions read \<open>nodes\<close> and never write to it. \<open>attachMethods\<close> is given its
  address, for the request functions to keep; the two helpers are given what the array
  holds, which is the same before and after \<open>attachQuery\<close>. Each helper that is attached
  gets an array of its own, a copy of \<open>nodes\<close> with the key set to \<open>null\<close>, and every
  call of the helper will write to that one array.

  In \<open>context.query[RETURN_PROPERTY] = attachMethods(...)\<close> the right-hand side is
  evaluated, and then the write to what \<open>context.query\<close> holds is made: on an object it
  is a write, on a primitive it is dropped, on \<open>undefined\<close> or \<open>null\<close> it throws.
\<close>

type_synonym outcome = "(error option \<times> obj) \<times> heap"

definition absent_keys :: "nodes \<Rightarrow> nat" where
  "absent_keys ns = (if query ns = None then 1 else 0) + (if headers ns = None then 1 else 0)"

text \<open>\<open>ob[k][RETURN_PROPERTY] = ret\<close>.\<close>

definition assign_return :: "host \<Rightarrow> string \<Rightarrow> obj \<Rightarrow> obj \<Rightarrow> error option \<times> obj" where
  "assign_return H k ret ob = (case read_prop H ob k of
       Inl e \<Rightarrow> (Some e, ob)
     | Inr target \<Rightarrow>
         (case assign H RETURN_PROPERTY ret target of
            Inl e \<Rightarrow> (Some e, ob)
          | Inr target' \<Rightarrow> (None, held k target' ob)))"

text \<open>\<open>_.each(methods, function (method, verb) { context[verb] = httpRequest(nodes, method); })\<close>.\<close>

fun attachVerbs :: "host \<Rightarrow> heap \<Rightarrow> nat \<Rightarrow> methods \<Rightarrow> obj \<Rightarrow> error option \<times> obj" where
  "attachVerbs H h a [] context = (None, context)"
| "attachVerbs H h a ((verb, m) # rest) context =
     (case assign H verb (Obj (Some (httpRequest H h a m)) []) context of
        Inl e \<Rightarrow> (Some e, context)
      | Inr c \<Rightarrow> attachVerbs H h a rest c)"

function attachQuery :: "host \<Rightarrow> nodes \<Rightarrow> obj \<Rightarrow> methods \<Rightarrow> heap \<Rightarrow> outcome"
  and attachHeaders :: "host \<Rightarrow> nodes \<Rightarrow> obj \<Rightarrow> methods \<Rightarrow> heap \<Rightarrow> outcome"
  and attachMethods :: "host \<Rightarrow> nat \<Rightarrow> obj \<Rightarrow> methods \<Rightarrow> heap \<Rightarrow> outcome" where
  "attachQuery H ns context ms h =
     (if query ns \<noteq> None then ((None, context), h)
      else
        (case alloc (ns\<lparr>query := Some Null\<rparr>) h of (routeNodes, h1) \<Rightarrow>
         (case assign H ''query'' (Obj (Some (Query routeNodes ms)) []) context of
            Inl e \<Rightarrow> ((Some e, context), h1)
          | Inr c1 \<Rightarrow>
              (case attachMethods H routeNodes (Obj None []) ms h1 of
                 ((Some e, ret), h2) \<Rightarrow> ((Some e, c1), h2)
               | ((None, ret), h2) \<Rightarrow> (assign_return H ''query'' ret c1, h2)))))"
| "attachHeaders H ns context ms h =
     (if headers ns \<noteq> None then ((None, context), h)
      else
        (case alloc (ns\<lparr>headers := Some Null\<rparr>) h of (routeNodes, h1) \<Rightarrow>
         (case assign H ''headers'' (Obj (Some (Headers routeNodes ms)) []) context of
            Inl e \<Rightarrow> ((Some e, context), h1)
          | Inr c1 \<Rightarrow>
              (case attachMethods H routeNodes (Obj None []) ms h1 of
                 ((Some e, ret), h2) \<Rightarrow> ((Some e, c1), h2)
               | ((None, ret), h2) \<Rightarrow> (assign_return H ''headers'' ret c1, h2)))))"
| "attachMethods H a context ms h =
     (case attachQuery H (h ! a) context ms h of
        ((Some e, c1), h1) \<Rightarrow> ((Some e, c1), h1)
      | ((None, c1), h1) \<Rightarrow>
          (case attachHeaders H (h ! a) c1 ms h1 of
             ((Some e, c2), h2) \<Rightarrow> ((Some e, c2), h2)
           | ((None, c2), h2) \<Rightarrow> (attachVerbs H h2 a ms c2, h2)))"
  by pat_completeness auto
termination
  by (relation "measure (\<lambda>x. case x of
        Inl (H, ns, c, ms, h) \<Rightarrow> 2 * absent_keys ns
      | Inr (Inl (H, ns, c, ms, h)) \<Rightarrow> 2 * absent_keys ns
      | Inr (Inr (H, a, c, ms, h)) \<Rightarrow> 2 * absent_keys (h ! a) + 1)")
     (auto simp: absent_keys_def alloc_def)

declare attachQuery.simps [simp del] attachHeaders.simps [simp del] attachMethods.simps [simp del]

subsection \<open>The shape of a dynamic route\<close>

text \<open>\<open>\w\<close>: a letter, a digit or the underscore.\<close>

definition is_word :: "char \<Rightarrow> bool" where
  "is_word c = (let n = (of_char c :: nat) in
     (48 \<le> n \<and> n \<le> 57) \<or> (65 \<le> n \<and> n \<le> 90) \<or> (97 \<le> n \<and> n \<le> 122) \<or> n = 95)"

definition is_brace :: "char \<Rightarrow> bool" where
  "is_brace c = (c = CHR ''{'' \<or> c = CHR ''}'')"

text \<open>
  \<open>(?:\{[^\{\}]+\})+$\<close> on the rest of the route: an opening brace, one or more
  characters that are not braces, a closing brace, and then the end or the next group.
  The run \<open>[^\{\}]+\<close> is greedy and cannot hold the closing brace, so the group ends at
  the first brace after it.
\<close>

function tag_groups :: "string \<Rightarrow> bool" where
  "tag_groups [] = False"
| "tag_groups (c # cs) =
     (c = CHR ''{'' \<and> takeWhile (\<lambda>x. \<not> is_brace x) cs \<noteq> [] \<and>
      (case dropWhile (\<lambda>x. \<not> is_brace x) cs of
         [] \<Rightarrow> False
       | r # rs \<Rightarrow> r = CHR ''}'' \<and> (rs = [] \<or> tag_groups rs)))"
  by pat_completeness auto
termination
proof (relation "measure length")
  fix c :: char and cs r rs
  assume "dropWhile (\<lambda>x. \<not> is_brace x) cs = r # rs"
  then have "length (r # rs) \<le> length cs"
    by (metis length_dropWhile_le)
  then show "(rs, c # cs) \<in> measure length" by simp
qed simp

text \<open>
  \<open>/^\w*(?:\{[^\{\}]+\})+$/.test(route)\<close>. The run \<open>\w*\<close> is greedy and cannot hold a
  brace, so the groups start at the first character that is not a word character.
\<close>

definition route_test :: "string \<Rightarrow> bool" where
  "route_test route = tag_groups (dropWhile is_word route)"

text \<open>
  The name under which a dynamic route is attached: the tag itself when the route is
  one bare tag (\<open>templateTags.pop()\<close> of the one-element list), and otherwise
  \<open>route.substr(0, route.indexOf('{'))\<close>.
\<close>

definition route_name :: "string list \<Rightarrow> string \<Rightarrow> string" where
  "route_name templateTags route =
     (if length templateTags = 1 \<and> ''{'' @ hd templateTags @ ''}'' = route
      then last templateTags
      else takeWhile (\<lambda>c. c \<noteq> CHR ''{'') route)"

subsection \<open>attachResources\<close>

text \<open>
  \<open>_.each(resources, ...)\<close> of underscore visits every resource in key order; what the
  callback returns is ignored, and a throw of the callback ends the walk.
  \<open>attachResource\<close> is the callback, its statements in the order of the source.

  For a static route, \<open>newContext\<close> is what \<open>context[routeName]\<close> holds when that is
  truthy, and otherwise the new object of \<open>context[routeName] = {}\<close>, whether or not that
  write took effect. What is then attached to \<open>newContext\<close> shows in \<open>context\<close> when
  \<open>context\<close> holds \<open>newContext\<close>.
\<close>

fun attachResources :: "host \<Rightarrow> nat \<Rightarrow> obj \<Rightarrow> (string \<times> resource) list \<Rightarrow> heap \<Rightarrow> outcome"
  and attachResource :: "host \<Rightarrow> nat \<Rightarrow> obj \<Rightarrow> string \<Rightarrow> resource \<Rightarrow> heap \<Rightarrow> outcome" where
  "attachResources H a context [] h = ((None, context), h)"
| "attachResources H a context ((route, resource) # rest) h =
     (case attachResource H a context route resource h of
        ((Some e, c1), h1) \<Rightarrow> ((Some e, c1), h1)
      | ((None, c1), h1) \<Rightarrow> attachResources H a c1 rest h1)"
| "attachResource H a context route (Resource up ms rs) h =
     (case alloc ((h ! a)\<lparr>segments := segments (h ! a) @ [route]\<rparr>) h of (routeNodes, h1) \<Rightarrow>
      (case (case up of None \<Rightarrow> [] | Some ps \<Rightarrow> map fst ps) of
         [] \<Rightarrow>
           (case read_prop H context route of
              Inl e \<Rightarrow> ((Some e, context), h1)
            | Inr found \<Rightarrow>
                (if truthy_obj found then
                   (case attachMethods H routeNodes found ms h1 of
                      ((Some e, c1), h2) \<Rightarrow> ((Some e, held route c1 context), h2)
                    | ((None, c1), h2) \<Rightarrow>
                        (case attachResources H routeNodes c1 rs h2 of
                           ((e, c2), h3) \<Rightarrow> ((e, held route c2 context), h3)))
                 else
                   (case assign H route (Obj None []) context of
                      Inl e \<Rightarrow> ((Some e, context), h1)
                    | Inr c0 \<Rightarrow>
                        (case attachMethods H routeNodes (Obj None []) ms h1 of
                           ((Some e, c1), h2) \<Rightarrow>
                             ((Some e, if writable H context route then held route c1 c0 else c0), h2)
                         | ((None, c1), h2) \<Rightarrow>
                             (case attachResources H routeNodes c1 rs h2 of
                                ((e, c2), h3) \<Rightarrow>
                                  ((e, if writable H context route then held route c2 c0 else c0),
                                   h3))))))
       | t # ts \<Rightarrow>
           (if route_test route then
              (if route_name (t # ts) route \<in> set RESERVED_METHODS then ((None, context), h1)
               else
                 (case read_prop H context (route_name (t # ts) route) of
                    Inl e \<Rightarrow> ((Some e, context), h1)
                  | Inr found \<Rightarrow>
                      (case assign H (route_name (t # ts) route)
                              (extend H
                                 (Obj (Some (Route routeNodes route (Resource up ms rs)
                                               (length (t # ts)))) [])
                                 found)
                              context of
                         Inl e \<Rightarrow> ((Some e, context), h1)
                       | Inr c1 \<Rightarrow>
                           (case attachMethods H routeNodes (Obj None []) ms h1 of
                              ((Some e, r1), h2) \<Rightarrow> ((Some e, c1), h2)
                            | ((None, r1), h2) \<Rightarrow>
                                (case attachResources H routeNodes r1 rs h2 of
                                   ((Some e, r2), h3) \<Rightarrow> ((Some e, c1), h3)
                                 | ((None, returnPropContext), h3) \<Rightarrow>
                                     (assign_return H (route_name (t # ts) route)
                                        returnPropContext c1, h3))))))
            else ((None, context), h1))))"

subsection \<open>Calling the functions of the client\<close>

text \<open>
  A call returns the new context or the error thrown, and the heap it leaves. \<open>_.isObject\<close>
  holds of objects, arrays, dates and regular expressions; \<open>typeof headers\<close> is
  \<open>'object'\<close> for these and for \<open>null\<close>.
\<close>

definition isObject :: "jsval \<Rightarrow> bool" where
  "isObject v = (case v of JObj kvs \<Rightarrow> True | JArr xs \<Rightarrow> True | JDate t \<Rightarrow> True
                         | JRegExp src \<Rightarrow> True | _ \<Rightarrow> False)"

text \<open>What a function hands back: the context, or the error when one was thrown.\<close>

definition returned :: "outcome \<Rightarrow> (error + obj) \<times> heap" where
  "returned r = (case r of ((Some e, c), h) \<Rightarrow> (Inl e, h) | ((None, c), h) \<Rightarrow> (Inr c, h))"

definition call_query :: "host \<Rightarrow> nat \<Rightarrow> methods \<Rightarrow> jsval \<Rightarrow> heap \<Rightarrow> (error + obj) \<times> heap" where
  "call_query H routeNodes ms q h =
     returned (attachMethods H routeNodes (Obj None []) ms
       (h[routeNodes := (h ! routeNodes)
            \<lparr>query := Some (if isObject q then JStr (qs_stringify H q) else q)\<rparr>]))"

definition call_headers :: "host \<Rightarrow> nat \<Rightarrow> methods \<Rightarrow> jsval \<Rightarrow> heap \<Rightarrow> (error + obj) \<times> heap" where
  "call_headers H routeNodes ms hs h =
     (if \<not> (isObject hs \<or> hs = Null) then (Inl InvalidHeaders, h)
      else
        returned (attachMethods H routeNodes (Obj None []) ms
          (h[routeNodes := (h ! routeNodes)\<lparr>headers := Some hs\<rparr>])))"

definition call_route ::
    "host \<Rightarrow> nat \<Rightarrow> string \<Rightarrow> resource \<Rightarrow> nat \<Rightarrow> jsval list \<Rightarrow> heap \<Rightarrow> (error + obj) \<times> heap" where
  "call_route H routeNodes route resource templateCount arguments h =
     (if length arguments < templateCount then (Inl InsufficientArguments, h)
      else
        (case template H route (uriParameters resource) (JArr arguments) of
           Inl e \<Rightarrow> (Inl e, h)
         | Inr text \<Rightarrow>
             (case attachMethods H routeNodes (Obj None []) (methods resource)
                     (h[routeNodes := (h ! routeNodes)
                          \<lparr>segments := (segments (h ! routeNodes))
                             [length (segments (h ! routeNodes)) - 1 := text]\<rparr>])
              of
                ((Some e, c1), h1) \<Rightarrow> (Inl e, h1)
              | ((None, c1), h1) \<Rightarrow>
                  returned (attachResources H routeNodes c1 (resources resource) h1))))"

text \<open>
  \<open>context.name(arguments)\<close> for the helpers and the route functions. Anything else
  under that name is reported as the engine's \<open>TypeError\<close>, which is what a missing
  property, a primitive or a plain object gives; the request functions are called
  through \<open>send\<close>, and calling the root function is not modelled.
\<close>

definition invoke :: "host \<Rightarrow> obj \<Rightarrow> string \<Rightarrow> jsval list \<Rightarrow> heap \<Rightarrow> (error + obj) \<times> heap" where
  "invoke H context name arguments h =
     (case get_prop context name of
        Some (Obj (Some (Query routeNodes ms)) ps) \<Rightarrow>
          call_query H routeNodes ms (element arguments 0) h
      | Some (Obj (Some (Headers routeNodes ms)) ps) \<Rightarrow>
          call_headers H routeNodes ms (element arguments 0) h
      | Some (Obj (Some (Route routeNodes route resource templateCount)) ps) \<Rightarrow>
          call_route H routeNodes route resource templateCount arguments h
      | _ \<Rightarrow> (Inl EngineTypeError, h))"

text \<open>The options of the request that \<open>context.verb(...)\<close> hands over.\<close>

definition send_verb :: "heap \<Rightarrow> obj \<Rightarrow> string \<Rightarrow> options option" where
  "send_verb h context verb = (case get_prop context verb of
       Some (Obj (Some f) ps) \<Rightarrow> send h f
     | _ \<Rightarrow> None)"

subsection \<open>generateClient\<close>

definition generateClient :: "host \<Rightarrow> ast \<Rightarrow> (error + obj) \<times> heap" where
  "generateClient H tree =
     (case alloc \<lparr>segments = [], baseUri = ast_baseUri tree, query = None, headers = None\<rparr> []
      of (a, h0) \<Rightarrow>
      (case attachMethods H a (Obj None []) httpMethods h0 of
         ((Some e, ret), h1) \<Rightarrow> (Inl e, h1)
       | ((None, ret), h1) \<Rightarrow>
           (case assign H RETURN_PROPERTY ret (Obj (Some (Client a)) []) of
              Inl e \<Rightarrow> (Inl e, h1)
            | Inr client \<Rightarrow>
                returned (attachResources H a client (ast_resources tree) h1))))"

subsection \<open>Vocabulary for stating the properties of routes\<close>

text \<open>The parameter names that appear in a route: the texts between its braces.\<close>

function route_tags :: "string \<Rightarrow> string list" where
  "route_tags [] = []"
| "route_tags (c # cs) =
     (if c = CHR ''{'' then
        takeWhile (\<lambda>x. x \<noteq> CHR ''}'') cs # route_tags (dropWhile (\<lambda>x. x \<noteq> CHR ''}'') cs)
      else route_tags cs)"
  by pat_completeness auto
termination
proof (relation "measure length")
  fix c :: char and cs
  have "length (dropWhile (\<lambda>x. x \<noteq> CHR ''}'') cs) \<le> length cs"
    by (rule length_dropWhile_le)
  then show "(dropWhile (\<lambda>x. x \<noteq> CHR ''}'') cs, c # cs) \<in> measure length" by simp
qed simp_all

text \<open>
  The text of a tag group, and what may stand between its braces: at least one
  character, none of them a brace.
\<close>

definition group_text :: "string \<Rightarrow> string" where
  "group_text g = ''{'' @ g @ ''}''"

definition tag_body :: "string \<Rightarrow> bool" where
  "tag_body g = (g \<noteq> [] \<and> \<not> list_ex is_brace g)"

subsection \<open>Examples\<close>

text \<open>The root array of the examples.\<close>

definition example_root :: nodes where
  "example_root = \<lparr>segments = [], baseUri = ''http://api.example.com'', query = None, headers = None\<rparr>"

text \<open>The context that a call returned; the empty object when it threw.\<close>

definition branch :: "(error + obj) \<times> heap \<Rightarrow> obj" where
  "branch r = (case fst r of Inr c \<Rightarrow> c | Inl e \<Rightarrow> Obj None [])"

text \<open>
  The routes \<open>user-{id}\<close> and \<open>user_{id}\<close>, each with the declared parameter \<open>id\<close>, attached
  to an empty context below the root array.
\<close>

definition id_resource :: resource where
  "id_resource = Resource (Some [(''id'', bare_param (JStr ''string''))]) [(''get'', Method ''get'')] []"

definition hyphen_attached :: outcome where
  "hyphen_attached = attachResource example_host 0 (Obj None []) ''user-{id}'' id_resource [example_root]"

definition underscore_attached :: outcome where
  "underscore_attached =
     attachResource example_host 0 (Obj None []) ''user_{id}'' id_resource [example_root]"

text \<open>
  The route \<open>a{id}b\<close> of a resource that declares no parameter, and the route \<open>get{id}\<close>
  with the declared parameter \<open>id\<close>, each attached to an empty context below the root
  array.
\<close>

definition undeclared_resource :: resource where
  "undeclared_resource = Resource None [(''get'', Method ''get'')] []"

definition undeclared_attached :: outcome where
  "undeclared_attached =
     attachResource example_host 0 (Obj None []) ''a{id}b'' undeclared_resource [example_root]"

definition reserved_attached :: outcome where
  "reserved_attached =
     attachResource example_host 0 (Obj None []) ''get{id}'' id_resource [example_root]"

text \<open>
  The client of a description whose one resource, at the top, is \<open>length{n}\<close> with the
  declared parameter \<open>n\<close>; the client of a description whose one resource is the static
  route \<open>length\<close>; and the root function as \<open>generateClient\<close> hands it to
  \<open>attachResources\<close>, without its \<open>@return\<close> property.
\<close>

definition n_resource :: resource where
  "n_resource = Resource (Some [(''n'', bare_param (JStr ''string''))]) [(''get'', Method ''get'')] []"

definition length_client :: "(error + obj) \<times> heap" where
  "length_client = generateClient example_host
     \<lparr>ast_baseUri = ''http://api.example.com'', ast_resources = [(''length{n}'', n_resource)]\<rparr>"

definition static_length_client :: "(error + obj) \<times> heap" where
  "static_length_client = generateClient example_host
     \<lparr>ast_baseUri = ''http://api.example.com'',
      ast_resources = [(''length'', Resource None [(''get'', Method ''get'')] [])]\<rparr>"

definition root_function :: obj where
  "root_function = Obj (Some (Client 0)) []"

text \<open>The route \<open>x{a}{b}\<close> of a resource that declares the parameter \<open>a\<close> only.\<close>

definition partial_resource :: resource where
  "partial_resource = Resource (Some [(''a'', bare_param (JStr ''string''))]) [(''get'', Method ''get'')] []"

definition partial_attached :: outcome where
  "partial_attached =
     attachResource example_host 0 (Obj None []) ''x{a}{b}'' partial_resource [example_root]"

text \<open>
  The client of the description with base URI \<open>http://api.example.com\<close>, the static
  resource \<open>users\<close> with \<open>get\<close>, and below it the dynamic resource \<open>{id}\<close> with \<open>get\<close>; and
  on its node \<open>users\<close> two calls of \<open>headers\<close>, and two calls of \<open>query\<close>, one after the
  other.
\<close>

definition example_ast :: ast where
  "example_ast = \<lparr>ast_baseUri = ''http://api.example.com'',
     ast_resources =
       [(''users'', Resource None [(''get'', Method ''get'')]
          [(''{id}'', Resource (Some [(''id'', bare_param (JStr ''integer''))])
             [(''get'', Method ''get'')] [])])]\<rparr>"

definition example_client :: "(error + obj) \<times> heap" where
  "example_client = generateClient example_host example_ast"

definition users_node :: obj where
  "users_node =
     (case get_prop (branch example_client) ''users'' of Some u \<Rightarrow> u | None \<Rightarrow> Obj None [])"

definition first_headers :: "(error + obj) \<times> heap" where
  "first_headers =
     invoke example_host users_node ''headers'' [JObj [(''X'', JStr ''1'')]] (snd example_client)"

definition second_headers :: "(error + obj) \<times> heap" where
  "second_headers =
     invoke example_host users_node ''headers'' [JObj [(''Y'', JStr ''2'')]] (snd first_headers)"

definition first_query :: "(error + obj) \<times> heap" where
  "first_query = invoke example_host users_node ''query'' [JStr ''a=1''] (snd example_client)"

definition second_query :: "(error + obj) \<times> heap" where
  "second_query = invoke example_host users_node ''query'' [JStr ''b=2''] (snd first_query)"

section \<open>Properties of the validator\<close>

subsection \<open>Decimal text and parseInt\<close>

text \<open>\<open>v === +v\<close> holds exactly of the numbers other than \<open>NaN\<close>.\<close>

lemma self_number: "strict_eq v (JNum (to_number H v)) \<longleftrightarrow> (\<exists>n. v = JNum n \<and> n \<noteq> NaN)"
  by (cases v) (auto simp: strict_eq_def)

text \<open>
  \<open>parseInt\<close> reads back the decimal text of an integer, and whatever it reads is an
  integer or \<open>NaN\<close>.
\<close>

lemma is_digit_digit_char: "d < 10 \<Longrightarrow> is_digit (digit_char d)"
  by (simp add: is_digit_def digit_char_def)

lemma digit_val_digit_char: "d < 10 \<Longrightarrow> digit_val (digit_char d) = d"
  by (simp add: digit_val_def digit_char_def)

lemma show_nat_digits: "list_all is_digit (show_nat n)"
proof (induction n rule: show_nat.induct)
  case (1 n)
  show ?case
  proof (cases "n < 10")
    case True
    then show ?thesis by (subst show_nat.simps) (simp add: is_digit_digit_char)
  next
    case False
    with 1 show ?thesis by (subst show_nat.simps) (simp add: is_digit_digit_char)
  qed
qed

lemma show_nat_nonempty: "show_nat n \<noteq> []"
  by (subst show_nat.simps) simp

lemma digits_value_append:
  "list_all is_digit xs \<Longrightarrow> digits_value acc (xs @ ys) = digits_value (digits_value acc xs) ys"
  by (induction xs arbitrary: acc) auto

lemma digits_value_show_nat: "digits_value 0 (show_nat n) = n"
proof (induction n rule: show_nat.induct)
  case (1 n)
  show ?case
  proof (cases "n < 10")
    case True
    then show ?thesis
      by (subst show_nat.simps) (simp add: is_digit_digit_char digit_val_digit_char)
  next
    case False
    with 1 have "digits_value 0 (show_nat (n div 10)) = n div 10" by simp
    with False show ?thesis
      by (subst show_nat.simps)
         (simp add: digits_value_append show_nat_digits is_digit_digit_char digit_val_digit_char)
  qed
qed

lemma parse_digits_show_nat: "parse_digits (show_nat n) = Fin (of_nat n)"
proof -
  obtain c cs where e: "show_nat n = c # cs"
    using show_nat_nonempty [of n] by (cases "show_nat n") auto
  have "is_digit c" using show_nat_digits [of n] e by simp
  then show ?thesis
    using digits_value_show_nat [of n] e by (simp add: parse_digits_def)
qed

lemma not_space_digit: "is_digit c \<Longrightarrow> \<not> is_space c"
  by (auto simp: is_digit_def is_space_def)

lemma parse_int_text_show_int: "parse_int_text (show_int i) = Fin (of_int i)"
proof (cases "i < 0")
  case True
  then show ?thesis
    by (simp add: show_int_def parse_int_text_def is_space_def parse_digits_show_nat negate_def)
next
  case False
  obtain c cs where e: "show_nat (nat i) = c # cs"
    using show_nat_nonempty [of "nat i"] by (cases "show_nat (nat i)") auto
  have d: "is_digit c" using show_nat_digits [of "nat i"] e by simp
  then have "c \<noteq> CHR ''-''" "c \<noteq> CHR ''+''" by (auto simp: is_digit_def)
  moreover have "parse_digits (c # cs) = Fin (of_nat (nat i))"
    using parse_digits_show_nat [of "nat i"] e by simp
  ultimately show ?thesis
    using False e d by (simp add: show_int_def parse_int_text_def not_space_digit)
qed

lemma parse_digits_integral: "parse_digits s = NaN \<or> (\<exists>k::int. parse_digits s = Fin (of_int k))"
proof (cases s)
  case Nil
  then show ?thesis by (simp add: parse_digits_def)
next
  case (Cons c cs)
  show ?thesis
  proof (cases "is_digit c")
    case True
    then have "parse_digits s = Fin (of_int (int (digits_value 0 s)))"
      using Cons by (simp add: parse_digits_def)
    then show ?thesis by blast
  next
    case False
    then show ?thesis using Cons by (simp add: parse_digits_def)
  qed
qed

lemma negate_integral:
  "n = NaN \<or> (\<exists>k::int. n = Fin (of_int k)) \<Longrightarrow> negate n = NaN \<or> (\<exists>k::int. negate n = Fin (of_int k))"
proof (erule disjE)
  assume "n = NaN" then show ?thesis by (simp add: negate_def)
next
  assume "\<exists>k::int. n = Fin (of_int k)"
  then obtain k :: int where "n = Fin (of_int k)" by blast
  then have "negate n = Fin (of_int (- k))" by (simp add: negate_def)
  then show ?thesis by blast
qed

lemma parse_int_text_integral:
  "parse_int_text s = NaN \<or> (\<exists>k::int. parse_int_text s = Fin (of_int k))"
proof (cases "dropWhile is_space s")
  case Nil
  show ?thesis unfolding parse_int_text_def Nil by simp
next
  case (Cons c cs)
  show ?thesis
    unfolding parse_int_text_def Cons
    using parse_digits_integral [of cs] parse_digits_integral [of "c # cs"]
      negate_integral [OF parse_digits_integral [of cs]]
    by simp
qed

lemma parseInt_fixed_integral:
  assumes "strict_eq v (JNum (parseInt H v))"
  shows "\<exists>k::int. v = JNum (Fin (of_int k))"
proof -
  from assms obtain n where v: "v = JNum n" and n: "n \<noteq> NaN" "parseInt H v = n"
    by (cases v) (auto simp: strict_eq_def)
  from parse_int_text_integral [of "to_string H v"] n show ?thesis
    unfolding parseInt_def v by auto
qed

lemma parseInt_of_int:
  assumes "\<bar>k\<bar> < 10 ^ 21"
  shows "parseInt H (JNum (Fin (of_int k))) = Fin (of_int k)"
proof -
  have "\<bar>(of_int k :: rat)\<bar> < 10 ^ 21"
    using assms by (metis of_int_abs of_int_less_iff of_int_numeral of_int_power)
  then show ?thesis
    by (simp add: parseInt_def is_integer_def parse_int_text_show_int)
qed

lemma self_number_min:
  "(strict_eq lo (JNum (to_number H lo)) \<and> js_less H (JNum x) lo) = violates_minimum (JNum x) lo"
  by (cases lo) (auto simp: strict_eq_def js_less_def violates_minimum_def)

lemma self_number_max:
  "(strict_eq hi (JNum (to_number H hi)) \<and> js_greater H (JNum x) hi) = violates_maximum (JNum x) hi"
  by (cases hi) (auto simp: strict_eq_def js_greater_def violates_maximum_def)

subsection \<open>Required parameters\<close>

text \<open>
  C4. For a parameter with \<open>required = true\<close>, validating an absent value (\<open>null\<close> or
  \<open>undefined\<close>) fails with MissingRequired whatever the other facets are; for a parameter
  whose \<open>required\<close> is unset or \<open>false\<close>, validating an absent value succeeds, and no
  other facet is looked at.
\<close>

theorem required_absent:
  "is_null value \<Longrightarrow>
     (required param = JBool True \<longrightarrow> validateParam H value param = Inl MissingRequired) \<and>
     (required param = Undefined \<or> required param = JBool False \<longrightarrow>
        validateParam H value param = Inr True)"
  by (auto simp: validateParam_def strict_eq_def)

theorem required_absent_witness:
  "is_null Null \<and>
   required ((bare_param (JStr ''integer''))\<lparr>required := JBool True, minimum := JNum (Fin 5)\<rparr>)
     = JBool True \<and>
   validateParam example_host Null
     ((bare_param (JStr ''integer''))\<lparr>required := JBool True, minimum := JNum (Fin 5)\<rparr>)
     = Inl MissingRequired \<and>
   is_null Undefined \<and>
   required ((bare_param (JStr ''string''))\<lparr>minLength := JNum (Fin 5)\<rparr>) = Undefined \<and>
   validateParam example_host Undefined ((bare_param (JStr ''string''))\<lparr>minLength := JNum (Fin 5)\<rparr>)
     = Inr True"
  using
    required_absent [of Null
      "(bare_param (JStr ''integer''))\<lparr>required := JBool True, minimum := JNum (Fin 5)\<rparr>"
      example_host]
    required_absent [of Undefined
      "(bare_param (JStr ''string''))\<lparr>minLength := JNum (Fin 5)\<rparr>" example_host]
  by (simp add: is_null_def bare_param_def)

text \<open>
  C8. A parameter counts as required only when its \<open>required\<close> facet is the boolean
  \<open>true\<close>: MissingRequired is raised exactly when the facet is \<open>true\<close> and the value is
  absent, so with a truthy facet that is not a boolean (\<open>1\<close>, \<open>"yes"\<close>) an absent value
  validates.
\<close>

theorem required_only_true:
  "(validateParam H value param = Inl MissingRequired \<longleftrightarrow>
      required param = JBool True \<and> is_null value) \<and>
   (truthy (required param) \<and> \<not> isBoolean (required param) \<and> is_null value \<longrightarrow>
      validateParam H value param = Inr True)"
proof -
  have a: "strict_eq (required param) (JBool True) \<longleftrightarrow> required param = JBool True"
    by (cases "required param") (auto simp: strict_eq_def)
  have b: "isBoolean (required param)" if "required param = JBool True"
    using that by (simp add: isBoolean_def)
  show ?thesis
    unfolding validateParam_def a using b by (auto split: if_splits)
qed

theorem required_only_true_witness:
  "truthy (JNum (Fin 1)) \<and> \<not> isBoolean (JNum (Fin 1)) \<and> is_null Undefined \<and>
   validateParam example_host Undefined ((bare_param (JStr ''string''))\<lparr>required := JNum (Fin 1)\<rparr>)
     = Inr True \<and>
   truthy (JStr ''yes'') \<and> \<not> isBoolean (JStr ''yes'') \<and> is_null Null \<and>
   validateParam example_host Null ((bare_param (JStr ''string''))\<lparr>required := JStr ''yes''\<rparr>)
     = Inr True"
  using
    required_only_true [of example_host Undefined
      "(bare_param (JStr ''string''))\<lparr>required := JNum (Fin 1)\<rparr>"]
    required_only_true [of example_host Null
      "(bare_param (JStr ''string''))\<lparr>required := JStr ''yes''\<rparr>"]
  by (simp add: is_null_def bare_param_def truthy_def isBoolean_def)

subsection \<open>Strings\<close>

text \<open>
  C9. The \<open>pattern\<close> facet constrains a string only when it is a regular expression
  value. For a string parameter whose \<open>pattern\<close> is a plain string, or any other value
  that is not a regular expression, validation never fails with PatternViolation and
  gives the result it gives with the pattern removed; so a value that satisfies the
  other facets validates.
\<close>

theorem plain_pattern_ignored:
  "type param = JStr ''string'' \<Longrightarrow> \<not> isRegExp (pattern param) \<Longrightarrow>
     validateParam H value param \<noteq> Inl PatternViolation \<and>
     validateParam H value param = validateParam H value (param\<lparr>pattern := Undefined\<rparr>)"
  by (simp add: validateParam_def strict_eq_def isRegExp_def)

theorem plain_pattern_ignored_witness:
  "type ((bare_param (JStr ''string''))\<lparr>pattern := JStr ''^[0-9]+$''\<rparr>) = JStr ''string'' \<and>
   \<not> isRegExp (pattern ((bare_param (JStr ''string''))\<lparr>pattern := JStr ''^[0-9]+$''\<rparr>)) \<and>
   validateParam example_host (JStr ''abc'')
     ((bare_param (JStr ''string''))\<lparr>pattern := JStr ''^[0-9]+$''\<rparr>) = Inr True"
  using plain_pattern_ignored [of "(bare_param (JStr ''string''))\<lparr>pattern := JStr ''^[0-9]+$''\<rparr>"
      example_host "JStr ''abc''"]
  by (simp add: bare_param_def isRegExp_def validateParam_def strict_eq_def is_null_def
        isString_def isArray_def)

subsection \<open>Integers\<close>

text \<open>
  What holds of the integer check. For a parameter \<open>{type: "integer"}\<close> and a present
  value: validation fails with TypeMismatch when the value is not a number with an
  integer value; when it does not fail with TypeMismatch, the value is checked against
  \<open>minimum\<close> and \<open>maximum\<close>, failing with RangeViolation when it is out of range and
  succeeding otherwise; and an integer below \<open>10\<^sup>2\<^sup>1\<close> in magnitude passes the
  type check. In particular \<open>150\<close> against \<open>{type: "integer", maximum: 100}\<close> fails with
  RangeViolation and \<open>99\<close> succeeds.
\<close>

theorem integer_validation:
  "(type param = JStr ''integer'' \<and> \<not> is_null value \<longrightarrow>
      ((\<nexists>k::int. value = JNum (Fin (of_int k))) \<longrightarrow>
          validateParam H value param = Inl TypeMismatch) \<and>
      (validateParam H value param \<noteq> Inl TypeMismatch \<longrightarrow>
          validateParam H value param =
            (if violates_minimum value (minimum param) \<or> violates_maximum value (maximum param)
             then Inl RangeViolation else Inr True)) \<and>
      ((\<exists>k::int. \<bar>k\<bar> < 10 ^ 21 \<and> value = JNum (Fin (of_int k))) \<longrightarrow>
          validateParam H value param \<noteq> Inl TypeMismatch)) \<and>
   validateParam H (JNum (Fin 150)) ((bare_param (JStr ''integer''))\<lparr>maximum := JNum (Fin 100)\<rparr>)
     = Inl RangeViolation \<and>
   validateParam H (JNum (Fin 99)) ((bare_param (JStr ''integer''))\<lparr>maximum := JNum (Fin 100)\<rparr>)
     = Inr True"
proof -
  have general:
    "((\<nexists>k::int. v = JNum (Fin (of_int k))) \<longrightarrow> validateParam H v p = Inl TypeMismatch) \<and>
     (validateParam H v p \<noteq> Inl TypeMismatch \<longrightarrow>
        validateParam H v p =
          (if violates_minimum v (minimum p) \<or> violates_maximum v (maximum p)
           then Inl RangeViolation else Inr True)) \<and>
     ((\<exists>k::int. \<bar>k\<bar> < 10 ^ 21 \<and> v = JNum (Fin (of_int k))) \<longrightarrow>
        validateParam H v p \<noteq> Inl TypeMismatch)"
    if t: "type p = JStr ''integer''" and nn: "\<not> is_null v" for v p
  proof -
    have unfold: "validateParam H v p =
        (if \<not> strict_eq v (JNum (parseInt H v)) then Inl TypeMismatch
         else if strict_eq (minimum p) (JNum (to_number H (minimum p))) \<and> js_less H v (minimum p)
           then Inl RangeViolation
         else if strict_eq (maximum p) (JNum (to_number H (maximum p))) \<and> js_greater H v (maximum p)
           then Inl RangeViolation
         else Inr True)"
      using t nn by (simp add: validateParam_def strict_eq_def)
    show ?thesis
    proof (cases "strict_eq v (JNum (parseInt H v))")
      case False
      then show ?thesis
        using parseInt_of_int [of _ H] by (auto simp: unfold strict_eq_def)
    next
      case True
      then obtain k :: int where v: "v = JNum (Fin (of_int k))"
        using parseInt_fixed_integral by blast
      have "validateParam H v p =
          (if violates_minimum v (minimum p) then Inl RangeViolation
           else if violates_maximum v (maximum p) then Inl RangeViolation else Inr True)"
        using True unfold by (simp add: v self_number_min self_number_max)
      then show ?thesis using v by auto
    qed
  qed
  have i: "\<bar>150 :: int\<bar> < 10 ^ 21" "\<bar>99 :: int\<bar> < 10 ^ 21" by simp_all
  let ?p = "(bare_param (JStr ''integer''))\<lparr>maximum := JNum (Fin 100)\<rparr>"
  have p: "type ?p = JStr ''integer''" "minimum ?p = Undefined" "maximum ?p = JNum (Fin 100)"
    by (simp_all add: bare_param_def)
  have "validateParam H (JNum (Fin (of_int 150))) ?p = Inl RangeViolation"
    using general [of ?p "JNum (Fin (of_int 150))"] i p
    by (auto simp: is_null_def violates_minimum_def violates_maximum_def)
  moreover have "validateParam H (JNum (Fin (of_int 99))) ?p = Inr True"
    using general [of ?p "JNum (Fin (of_int 99))"] i p
    by (auto simp: is_null_def violates_minimum_def violates_maximum_def)
  ultimately show ?thesis using general [of param "value"] by simp
qed

theorem integer_validation_witness:
  "type (bare_param (JStr ''integer'')) = JStr ''integer'' \<and> \<not> is_null (JStr ''12'') \<and>
   (\<nexists>k::int. JStr ''12'' = JNum (Fin (of_int k))) \<and>
   validateParam example_host (JStr ''12'') (bare_param (JStr ''integer'')) = Inl TypeMismatch \<and>
   \<not> is_null (JNum (Fin (of_int 7))) \<and>
   (\<exists>k::int. \<bar>k\<bar> < 10 ^ 21 \<and> JNum (Fin (of_int 7)) = JNum (Fin (of_int k))) \<and>
   validateParam example_host (JNum (Fin (of_int 7)))
     ((bare_param (JStr ''integer''))\<lparr>minimum := JNum (Fin 10)\<rparr>) = Inl RangeViolation"
proof -
  have k: "\<exists>k::int. \<bar>k\<bar> < 10 ^ 21 \<and> JNum (Fin (of_int 7)) = JNum (Fin (of_int k))"
    by (rule exI [of _ 7]) simp
  show ?thesis
    using k
      integer_validation [of "bare_param (JStr ''integer'')" "JStr ''12''" example_host]
      integer_validation [of "(bare_param (JStr ''integer''))\<lparr>minimum := JNum (Fin 10)\<rparr>"
        "JNum (Fin (of_int 7))" example_host]
    by (simp add: bare_param_def is_null_def violates_minimum_def violates_maximum_def)
qed

text \<open>
  From \<open>10\<^sup>2\<^sup>1\<close> on, the text of a number has an exponent and \<open>parseInt\<close> reads the
  digits before it: with the text \<open>1e+21\<close> that an engine prints, the integer
  \<open>10\<^sup>2\<^sup>1\<close> does not pass the type check.
\<close>

lemma exponent_text_rejected:
  assumes "number_text H (10 ^ 21) = ''1e+21''"
  shows "parseInt H (JNum (Fin (10 ^ 21))) = Fin 1"
    and "validateParam H (JNum (Fin (10 ^ 21))) (bare_param (JStr ''integer'')) = Inl TypeMismatch"
proof -
  have "to_string H (JNum (Fin (10 ^ 21))) = ''1e+21''"
    using assms by simp
  then show p: "parseInt H (JNum (Fin (10 ^ 21))) = Fin 1"
    by (simp add: parseInt_def parse_int_text_def parse_digits_def is_space_def is_digit_def
          digit_val_def)
  then show "validateParam H (JNum (Fin (10 ^ 21))) (bare_param (JStr ''integer'')) = Inl TypeMismatch"
    by (simp add: validateParam_def bare_param_def strict_eq_def is_null_def)
qed

text \<open>
  C5. The check of \<open>{type: "integer"}\<close> rejects an integer. The number \<open>10\<^sup>2\<^sup>1\<close> has an
  integer value, which a double holds exactly, and as \<open>{type: "number"}\<close> it is accepted;
  \<open>parseInt(1e21, 10)\<close> reads the text \<open>1e+21\<close> and gives 1, so
  \<open>value !== parseInt(value, 10)\<close> holds and \<open>validateParam(1e21, {type: "integer"})\<close> fails
  with TypeMismatch, where the source means to validate \<open>that the value is an integer\<close>.
\<close>

theorem huge_integer_rejected:
  "JNum (Fin (10 ^ 21)) = JNum (Fin (of_int (10 ^ 21))) \<and>
   parseInt example_host (JNum (Fin (10 ^ 21))) = Fin 1 \<and>
   validateParam example_host (JNum (Fin (10 ^ 21))) (bare_param (JStr ''integer''))
     = Inl TypeMismatch \<and>
   validateParam example_host (JNum (Fin (10 ^ 21))) (bare_param (JStr ''number'')) = Inr True"
proof -
  have t: "number_text example_host (10 ^ 21) = ''1e+21''"
    by (simp add: example_host_def)
  have n: "validateParam example_host (JNum (Fin (10 ^ 21))) (bare_param (JStr ''number'')) = Inr True"
    by (simp add: validateParam_def bare_param_def strict_eq_def is_null_def)
  show ?thesis
    using exponent_text_rejected [OF t] n by simp
qed

subsection \<open>Other types\<close>

text \<open>
  C10. For a parameter whose \<open>type\<close> is none of \<open>string\<close>, \<open>integer\<close>, \<open>number\<close>,
  \<open>date\<close>, \<open>boolean\<close>, every present value is accepted, no type or facet being checked;
  and whenever \<open>validateParam\<close> raises no error, what it returns is \<open>true\<close>.
\<close>

theorem other_type_accepts:
  "(\<not> is_null value \<and>
      type param \<notin> {JStr ''string'', JStr ''integer'', JStr ''number'', JStr ''date'', JStr ''boolean''}
      \<longrightarrow> validateParam H value param = Inr True) \<and>
   (\<forall>b. validateParam H value param = Inr b \<longrightarrow> b)"
proof -
  have e: "strict_eq (type param) (JStr s) \<longleftrightarrow> type param = JStr s" for s
    by (cases "type param") (auto simp: strict_eq_def)
  show ?thesis
    unfolding validateParam_def e by (auto split: if_splits)
qed

theorem other_type_accepts_witness:
  "\<not> is_null (JNum (Fin 3)) \<and>
   type ((bare_param (JStr ''file''))\<lparr>minimum := JNum (Fin 10)\<rparr>)
     \<notin> {JStr ''string'', JStr ''integer'', JStr ''number'', JStr ''date'', JStr ''boolean''} \<and>
   validateParam example_host (JNum (Fin 3)) ((bare_param (JStr ''file''))\<lparr>minimum := JNum (Fin 10)\<rparr>)
     = Inr True"
  using other_type_accepts [of "JNum (Fin 3)"
      "(bare_param (JStr ''file''))\<lparr>minimum := JNum (Fin 10)\<rparr>" example_host]
  by (simp add: bare_param_def is_null_def)

section \<open>Properties of the template function\<close>

text \<open>
  C6. With a declared parameter \<open>id\<close> whose specification the value \<open>"42"\<close> satisfies,
  the template \<open>/{id}\<close> gives \<open>/42\<close> with the named context \<open>{id: "42"}\<close>, and the same
  \<open>/42\<close> with the positional context \<open>["42"]\<close>.
\<close>

theorem single_tag_round_trip:
  "validateParam H (JStr ''42'') spec = Inr True \<Longrightarrow>
     template H ''/{id}'' (Some [(''id'', spec)]) (JObj [(''id'', JStr ''42'')]) = Inr ''/42'' \<and>
     template H ''/{id}'' (Some [(''id'', spec)]) (JArr [JStr ''42'']) = Inr ''/42''"
  by (simp add: template_def alternatives_def by_name_def by_index_def validate_declared_def
        property_def element_def replacement_def is_null_def)

theorem single_tag_round_trip_witness:
  "validateParam example_host (JStr ''42'') (bare_param (JStr ''string'')) = Inr True \<and>
   template example_host ''/{id}'' (Some [(''id'', bare_param (JStr ''string''))])
     (JObj [(''id'', JStr ''42'')]) = Inr ''/42'' \<and>
   template example_host ''/{id}'' (Some [(''id'', bare_param (JStr ''string''))])
     (JArr [JStr ''42'']) = Inr ''/42''"
proof -
  have v: "validateParam example_host (JStr ''42'') (bare_param (JStr ''string'')) = Inr True"
    by (simp add: validateParam_def bare_param_def strict_eq_def is_null_def isString_def
          isArray_def isRegExp_def)
  from single_tag_round_trip [OF v] v show ?thesis by simp
qed

text \<open>
  With the empty alternative as the only one, the scan matches the token \<open>{}\<close> and
  nothing else.
\<close>

lemma replace_without_empty_tag:
  "\<not> has_empty_tag s \<Longrightarrow> replace [[]] cb st s = Inr s"
proof (induction s)
  case Nil
  then show ?case by simp
next
  case (Cons c cs)
  have rest: "\<not> has_empty_tag cs" using Cons.prems by (cases cs) auto
  have "match_tag [[]] cs = None" if "c = CHR ''{''"
    using that Cons.prems by (cases cs) auto
  then show ?case using Cons.IH [OF rest] by simp
qed

text \<open>
  C7. With an object without entries for \<open>params\<close>, the template function is not the
  identity on the text \<open>{}\<close>: it throws. The guard \<open>if (!params)\<close> lets the empty object
  through, the expression built from its keys is \<open>{()}\<close>, the token \<open>{}\<close> of the text
  matches it, and the callback hands \<open>params['']\<close>, which is \<open>undefined\<close>, to
  \<open>validateParam\<close>, where the read of \<open>param.required\<close> is the engine's \<open>TypeError\<close>;
  with a named context and with a positional one.
\<close>

theorem empty_params_crash:
  "template example_host ''{}'' (Some []) (JObj []) = Inl EngineTypeError \<and>
   template example_host ''{}'' (Some []) (JArr []) = Inl EngineTypeError"
  by (simp add: template_def alternatives_def by_name_def by_index_def validate_declared_def
        property_def)

text \<open>
  Everywhere else the template function is the identity when no parameter is declared.
  When \<open>params\<close> is missing (falsy), it returns the text unchanged for every text and
  every context, literal braces included, and validates nothing. When \<open>params\<close> is an
  object without entries, it returns the text unchanged for every text that does not
  hold the token \<open>{}\<close>.
\<close>

theorem template_without_params:
  "template H string None context = Inr string \<and>
   (\<not> has_empty_tag string \<longrightarrow> template H string (Some []) context = Inr string)"
  by (cases "context") (simp_all add: template_def alternatives_def replace_without_empty_tag)

theorem template_without_params_witness:
  "\<not> has_empty_tag ''/users/{id}'' \<and>
   template example_host ''/users/{id}'' (Some []) (JArr [JStr ''42'']) = Inr ''/users/{id}'' \<and>
   template example_host ''/users/{id}'' None (JArr [JStr ''42'']) = Inr ''/users/{id}''"
  using template_without_params [of example_host "''/users/{id}''" "JArr [JStr ''42'']"]
  by simp

section \<open>Properties of the generated client\<close>

subsection \<open>Objects and the route expression\<close>

lemma plain_object_writable: "writable H (Obj None ps) k"
  by (simp add: writable_def fixed_def)

lemma put_obj: "\<exists>kvs. put H k v (Obj g ps) = Obj g kvs"
  by (simp add: put_def)

lemma call_put: "call (put H k v ob) = call ob"
  by (simp add: put_def)

lemma get_prop_put: "writable H ob k \<Longrightarrow> get_prop (put H k v ob) k = Some v"
  by (simp add: get_prop_def put_def update_Some_unfold)

lemma fold_put_obj:
  "\<exists>kvs. fold (\<lambda>x ob. put H (key x) (val x) ob) xs (Obj g ps) = Obj g kvs"
proof (induction xs arbitrary: ps)
  case Nil
  then show ?case by simp
next
  case (Cons x xs)
  obtain kvs where "put H (key x) (val x) (Obj g ps) = Obj g kvs"
    using put_obj by blast
  then show ?case using Cons.IH [of kvs] by simp
qed

lemma extend_obj: "\<exists>kvs. extend H (Obj g ps) source = Obj g kvs"
proof (cases source)
  case (Obj f kv)
  have "(\<lambda>(k, v) ob. put H k v ob) = (\<lambda>x ob. put H (fst x) (snd x) ob)"
    by (simp add: split_def)
  then show ?thesis
    using fold_put_obj [of H fst snd kv g ps] by (simp add: extend_def Obj)
next
  case (Prim p)
  show ?thesis
  proof (cases p)
    case (JStr s)
    then show ?thesis
      using fold_put_obj [of H show_nat "\<lambda>i. Prim (JStr [s ! i])" "[0..<length s]" g ps]
      by (simp add: extend_def Prim)
  qed (simp_all add: extend_def Prim)
qed

lemma not_brace_takeWhile:
  "\<forall>x\<in>set g. \<not> is_brace x \<Longrightarrow> takeWhile (\<lambda>x. \<not> is_brace x) (g @ CHR ''}'' # rest) = g"
  by (induction g) (auto simp: is_brace_def)

lemma not_brace_dropWhile:
  "\<forall>x\<in>set g. \<not> is_brace x \<Longrightarrow>
     dropWhile (\<lambda>x. \<not> is_brace x) (g @ CHR ''}'' # rest) = CHR ''}'' # rest"
  by (induction g) (auto simp: is_brace_def)

lemma tag_groups_sound:
  "tag_groups s \<Longrightarrow> \<exists>gs. gs \<noteq> [] \<and> list_all tag_body gs \<and> s = concat (map group_text gs)"
proof (induction s rule: tag_groups.induct)
  case 1
  then show ?case by simp
next
  case (2 c cs)
  let ?g = "takeWhile (\<lambda>x. \<not> is_brace x) cs"
  from "2.prems" have c: "c = CHR ''{''" and g: "?g \<noteq> []" by simp_all
  from "2.prems" obtain rs where d: "dropWhile (\<lambda>x. \<not> is_brace x) cs = CHR ''}'' # rs"
    and r: "rs = [] \<or> tag_groups rs"
    by (auto split: list.splits)
  have cs: "cs = ?g @ CHR ''}'' # rs"
    using d takeWhile_dropWhile_id [of "\<lambda>x. \<not> is_brace x" cs] by simp
  have body: "tag_body ?g"
    using g by (auto simp: tag_body_def list_ex_iff dest: set_takeWhileD)
  from r show ?case
  proof
    assume "rs = []"
    then have "c # cs = concat (map group_text [?g])"
      using c cs by (simp add: group_text_def)
    with body show ?thesis by (intro exI [of _ "[?g]"]) simp
  next
    assume "tag_groups rs"
    from "2.IH" [OF d this] obtain gs where
      gs: "gs \<noteq> []" "list_all tag_body gs" "rs = concat (map group_text gs)"
      by blast
    have "c # cs = concat (map group_text (?g # gs))"
      using c cs gs(3) by (simp add: group_text_def)
    with body gs show ?thesis by (intro exI [of _ "?g # gs"]) simp
  qed
qed

lemma tag_groups_complete:
  "gs \<noteq> [] \<Longrightarrow> list_all tag_body gs \<Longrightarrow> tag_groups (concat (map group_text gs))"
proof (induction gs)
  case Nil
  then show ?case by simp
next
  case (Cons g gs)
  from Cons.prems have tb: "tag_body g" and rest: "list_all tag_body gs"
    by simp_all
  from tb have g: "g \<noteq> []" "\<forall>x\<in>set g. \<not> is_brace x"
    by (auto simp: tag_body_def list_ex_iff)
  let ?rest = "concat (map group_text gs)"
  have e: "concat (map group_text (g # gs)) = CHR ''{'' # (g @ CHR ''}'' # ?rest)"
    by (simp add: group_text_def)
  have tail: "?rest = [] \<or> tag_groups ?rest"
  proof (cases "gs = []")
    case True
    then show ?thesis by simp
  next
    case False
    then show ?thesis using Cons.IH rest by simp
  qed
  have tw: "takeWhile (\<lambda>x. \<not> is_brace x) (g @ CHR ''}'' # ?rest) = g"
    using g(2) by (rule not_brace_takeWhile)
  have dw: "dropWhile (\<lambda>x. \<not> is_brace x) (g @ CHR ''}'' # ?rest) = CHR ''}'' # ?rest"
    using g(2) by (rule not_brace_dropWhile)
  have "tag_groups (CHR ''{'' # (g @ CHR ''}'' # ?rest))"
    unfolding tag_groups.simps tw dw using g(1) tail by simp
  then show ?case unfolding e .
qed

lemma not_word_open: "\<not> is_word CHR ''{''"
  by (simp add: is_word_def)

lemma route_test_shape:
  "route_test route \<longleftrightarrow>
     (\<exists>pre gs. route = pre @ concat (map group_text gs) \<and> list_all is_word pre \<and>
                gs \<noteq> [] \<and> list_all tag_body gs)"
proof
  assume "route_test route"
  then obtain gs where gs: "gs \<noteq> []" "list_all tag_body gs"
      "dropWhile is_word route = concat (map group_text gs)"
    unfolding route_test_def using tag_groups_sound by blast
  have "route = takeWhile is_word route @ concat (map group_text gs)"
    using gs(3) takeWhile_dropWhile_id [of is_word route] by simp
  moreover have "list_all is_word (takeWhile is_word route)"
    by (auto simp: list_all_iff dest: set_takeWhileD)
  ultimately show "\<exists>pre gs. route = pre @ concat (map group_text gs) \<and> list_all is_word pre \<and>
                gs \<noteq> [] \<and> list_all tag_body gs"
    using gs by blast
next
  assume "\<exists>pre gs. route = pre @ concat (map group_text gs) \<and> list_all is_word pre \<and>
                gs \<noteq> [] \<and> list_all tag_body gs"
  then obtain pre gs where r: "route = pre @ concat (map group_text gs)"
    and p: "list_all is_word pre" and gs: "gs \<noteq> []" "list_all tag_body gs"
    by blast
  from gs(1) obtain g gs' where "gs = g # gs'" by (cases gs) auto
  then have "concat (map group_text gs) = CHR ''{'' # (g @ ''}'' @ concat (map group_text gs'))"
    by (simp add: group_text_def)
  then have "dropWhile is_word route = concat (map group_text gs)"
    using r p not_word_open by (simp add: list_all_iff)
  then show "route_test route"
    unfolding route_test_def using tag_groups_complete [OF gs] by simp
qed

lemma route_name_prefix:
  "takeWhile (\<lambda>c. c \<noteq> CHR ''{'') route \<noteq> [] \<Longrightarrow>
     route_name tags route = takeWhile (\<lambda>c. c \<noteq> CHR ''{'') route"
  by (cases route) (auto simp: route_name_def)

lemma attachResource_skipped:
  assumes "ps \<noteq> []"
    and "\<not> (route_test route \<and> route_name (map fst ps) route \<notin> set RESERVED_METHODS)"
  shows "attachResource H a context route (Resource (Some ps) ms rs) h =
     ((None, context), h @ [(h ! a)\<lparr>segments := segments (h ! a) @ [route]\<rparr>])"
proof -
  from assms(1) obtain p ps' where ps: "ps = p # ps'" by (cases ps) auto
  show ?thesis using assms(2) by (auto simp: ps alloc_def)
qed

lemma assign_return_held:
  assumes "get_prop c k = Some (Obj g kvs)" and "fixed H c k = None" and "c = Obj f ps"
  shows "\<exists>kvs'. assign_return H k ret c = (None, held k (Obj g kvs') c)"
proof -
  have r: "read_prop H c k = Inr (Obj g kvs)"
    using assms by (simp add: read_prop_def get_prop_def)
  obtain kvs' where p: "put H RETURN_PROPERTY ret (Obj g kvs) = Obj g kvs'"
    using put_obj by blast
  have "assign_return H k ret c = (None, held k (Obj g kvs') c)"
    by (simp add: assign_return_def r assign_def is_nullish_def p)
  then show ?thesis by blast
qed

lemma get_prop_held: "get_prop (held k (Obj g kvs) ob) k = Some (Obj g kvs)"
  by (simp add: held_def get_prop_def update_Some_unfold)

lemma attachResource_attached:
  assumes "ps \<noteq> []" and "route_test route"
    and "route_name (map fst ps) route \<notin> set RESERVED_METHODS"
    and "writable H context (route_name (map fst ps) route)"
  shows "\<exists>kvs. get_prop (snd (fst (attachResource H a context route (Resource (Some ps) ms rs) h)))
             (route_name (map fst ps) route)
           = Some (Obj (Some (Route (length h) route (Resource (Some ps) ms rs) (length ps))) kvs)"
proof -
  from assms(1) obtain p ps' where ps: "ps = p # ps'" by (cases ps) auto
  let ?name = "route_name (map fst ps) route"
  let ?g = "Some (Route (length h) route (Resource (Some ps) ms rs) (length ps))"
  let ?h1 = "h @ [(h ! a)\<lparr>segments := segments (h ! a) @ [route]\<rparr>]"
  from assms(4) obtain f kv0 where ctx: "context = Obj f kv0" and fx: "fixed H context ?name = None"
    by (cases "context") (auto simp: writable_def)
  have "\<exists>found. read_prop H context ?name = Inr found"
    using fx by (cases "map_of kv0 ?name") (simp_all add: read_prop_def ctx)
  then obtain found where rd: "read_prop H context ?name = Inr found" by blast
  obtain kvs0 where F: "extend H (Obj ?g []) found = Obj ?g kvs0"
    using extend_obj by blast
  let ?c1 = "put H ?name (Obj ?g kvs0) context"
  have as: "assign H ?name (Obj ?g kvs0) context = Inr ?c1"
    by (simp add: assign_def is_nullish_def ctx)
  have g1: "get_prop ?c1 ?name = Some (Obj ?g kvs0)"
    using assms(4) by (rule get_prop_put)
  have c1: "?c1 = Obj f (AList.update ?name (Obj ?g kvs0) kv0)"
    using assms(4) by (simp add: put_def ctx)
  have fx1: "fixed H ?c1 ?name = None"
    using fx by (simp add: fixed_def call_put)
  have last_step: "\<exists>kvs. get_prop (snd (assign_return H ?name rp ?c1)) ?name = Some (Obj ?g kvs)" for rp
  proof -
    from assign_return_held [OF g1 fx1 c1, of rp] obtain kvs' where
      "assign_return H ?name rp ?c1 = (None, held ?name (Obj ?g kvs') ?c1)" by blast
    then show ?thesis by (simp add: get_prop_held)
  qed
  obtain e1 r1 h2 where m: "attachMethods H (length h) (Obj None []) ms ?h1 = ((e1, r1), h2)"
    by (metis prod.exhaust)
  obtain e2 r2 h3 where w: "attachResources H (length h) r1 rs h2 = ((e2, r2), h3)"
    by (metis prod.exhaust)
  note facts = assms(2,3) rd F as m
  show ?thesis
  proof (cases e1)
    case (Some e)
    have "attachResource H a context route (Resource (Some ps) ms rs) h = ((Some e, ?c1), h2)"
      using facts Some unfolding ps by (simp add: alloc_def)
    then show ?thesis using g1 by simp
  next
    case None
    show ?thesis
    proof (cases e2)
      case (Some e)
      have "attachResource H a context route (Resource (Some ps) ms rs) h = ((Some e, ?c1), h3)"
        using facts w None Some unfolding ps by (simp add: alloc_def)
      then show ?thesis using g1 by simp
    next
      case e2: None
      have "attachResource H a context route (Resource (Some ps) ms rs) h =
              (assign_return H ?name r2 ?c1, h3)"
        using facts w None e2 unfolding ps by (simp add: alloc_def)
      then show ?thesis using last_step [of r2] by simp
    qed
  qed
qed

lemma put_unwritable: "\<not> writable H ob k \<Longrightarrow> put H k v ob = ob"
  by (simp add: put_def)

lemma read_prop_unwritable:
  "\<not> writable H ob k \<Longrightarrow> read_prop H ob k = Inr found \<Longrightarrow> \<exists>p. found = Prim p"
  by (cases ob) (auto simp: read_prop_def writable_def split: if_splits)

lemma assign_return_unwritable:
  assumes "\<not> writable H ob k"
  shows "snd (assign_return H k ret ob) = ob"
proof (cases "read_prop H ob k")
  case (Inl e)
  then show ?thesis by (simp add: assign_return_def)
next
  case (Inr found)
  from read_prop_unwritable [OF assms Inr] obtain p where p: "found = Prim p" by blast
  show ?thesis
    by (simp add: assign_return_def Inr p assign_def put_def writable_def held_def)
qed

lemma attachResource_unwritable:
  assumes "ps \<noteq> []" and "route_test route"
    and "route_name (map fst ps) route \<notin> set RESERVED_METHODS"
    and "\<not> writable H context (route_name (map fst ps) route)"
  shows "snd (fst (attachResource H a context route (Resource (Some ps) ms rs) h)) = context"
proof -
  from assms(1) obtain p ps' where ps: "ps = p # ps'" by (cases ps) auto
  let ?name = "route_name (map fst ps) route"
  let ?h1 = "h @ [(h ! a)\<lparr>segments := segments (h ! a) @ [route]\<rparr>]"
  show ?thesis
  proof (cases "read_prop H context ?name")
    case (Inl e)
    then show ?thesis using assms(2,3) unfolding ps by (simp add: alloc_def)
  next
    case (Inr found)
    show ?thesis
    proof (cases "is_nullish context")
      case True
      then show ?thesis using assms(2,3) Inr unfolding ps by (simp add: alloc_def assign_def)
    next
      case False
      obtain e1 r1 h2 where m: "attachMethods H (length h) (Obj None []) ms ?h1 = ((e1, r1), h2)"
        by (metis prod.exhaust)
      obtain e2 r2 h3 where w: "attachResources H (length h) r1 rs h2 = ((e2, r2), h3)"
        by (metis prod.exhaust)
      note facts = assms(2,3) Inr False m put_unwritable [OF assms(4)]
      show ?thesis
      proof (cases e1)
        case (Some e)
        then show ?thesis using facts unfolding ps by (simp add: alloc_def assign_def)
      next
        case None
        show ?thesis
        proof (cases e2)
          case (Some e)
          then show ?thesis using facts None w unfolding ps by (simp add: alloc_def assign_def)
        next
          case e2: None
          have "attachResource H a context route (Resource (Some ps) ms rs) h =
                  (assign_return H ?name r2 context, h3)"
            using facts None w e2 unfolding ps by (simp add: alloc_def assign_def)
          then show ?thesis using assign_return_unwritable [OF assms(4)] by simp
        qed
      qed
    qed
  qed
qed

text \<open>
  The root function of a client has properties of its own that take no write. With the
  functions of \<open>example_host\<close>, a static route \<open>length\<close> at the top finds the number
  \<open>client.length\<close> where it looks for its context, and attaching to that number throws.
\<close>

lemma static_length_route_throws:
  "writable example_host root_function ''length'' = False \<and>
   read_prop example_host root_function ''length'' = Inr (Prim (JNum (Fin 2))) \<and>
   fst static_length_client = Inl EngineTypeError"
  by code_simp

subsection \<open>Which dynamic routes are attached\<close>

text \<open>
  C1, as stated, fails in four ways.

  Its own example: the route \<open>user-{id}\<close> is static text followed by one tag, and with
  the declared parameter \<open>id\<close> it is skipped, because the hyphen is not a word character
  and the expression of the source allows word characters only before the first tag.

  The routes it speaks of: the test is made for the resources that declare a URI
  parameter, not for the routes that hold a tag. The route \<open>a{id}b\<close> of a resource that
  declares none holds a tag and is not of the shape, and it is attached all the same, as
  the static route of that name, a plain object with its request functions.

  The reserved names: the route \<open>get{id}\<close> is of the shape, and it is skipped because
  its name \<open>get\<close> is reserved.

  The context: at the top the context is the root function, whose \<open>length\<close> takes no
  write. The route \<open>length{n}\<close> is of the shape and its name is not reserved, yet after
  \<open>generateClient\<close> the client holds no route function of that name:
  \<open>client.length\<close> is still the number 2, and calling it is the engine's \<open>TypeError\<close>.
\<close>

theorem route_shape_counterexample:
  "''user-{id}'' = ''user-'' @ group_text ''id'' \<and>
   uriParameters id_resource = Some [(''id'', bare_param (JStr ''string''))] \<and>
   fst hyphen_attached = (None, Obj None []) \<and>
   route_tags ''a{id}b'' = [''id''] \<and>
   route_test ''a{id}b'' = False \<and>
   uriParameters undeclared_resource = None \<and>
   fst (fst undeclared_attached) = None \<and>
   map_option call (get_prop (snd (fst undeclared_attached)) ''a{id}b'') = Some None \<and>
   route_test ''get{id}'' = True \<and>
   fst reserved_attached = (None, Obj None []) \<and>
   route_test ''length{n}'' = True \<and>
   route_name [''n''] ''length{n}'' = ''length'' \<and>
   ''length'' \<notin> set RESERVED_METHODS \<and>
   call (branch length_client) = Some (Client 0) \<and>
   get_prop (branch length_client) ''length'' = None \<and>
   read_prop example_host (branch length_client) ''length'' = Inr (Prim (JNum (Fin 2))) \<and>
   fst (invoke example_host (branch length_client) ''length'' [JStr ''5''] (snd length_client))
     = Inl EngineTypeError"
  by code_simp

text \<open>
  C1, amended. For a resource that declares at least one URI parameter, attached to
  any context:
  the test of the source holds of the route exactly when the route is a run of word
  characters (letters, digits, underscore; possibly none) followed by one or more
  \<open>{tag}\<close> groups up to its end, each tag at least one character and none a brace;
  when the route passes that test, its name is not a reserved method name and the
  context takes a write to that name, the route function is attached under the name;
  when the route fails the test or the name is reserved, the resource is skipped: the
  context is left as it was, with no error;
  when the route passes the test and the name is not reserved but the context takes no
  write to that name, the context is left as it was;
  and when there is static text before the first brace, the name is that text.
  Every plain object takes every write; a function does not for its fixed properties.
  So \<open>user_{id}\<close> is attached as \<open>user_\<close> and can be called with one argument,
  \<open>pre-{a}-mid-{b}\<close> is skipped, and \<open>length{n}\<close> leaves the root function as it was.
\<close>

theorem dynamic_route_attached:
  assumes "ps \<noteq> []"
  shows
   "(route_test route \<longleftrightarrow>
       (\<exists>pre gs. route = pre @ concat (map group_text gs) \<and> list_all is_word pre \<and>
                  gs \<noteq> [] \<and> list_all tag_body gs)) \<and>
    (route_test route \<and> route_name (map fst ps) route \<notin> set RESERVED_METHODS \<and>
     writable H context (route_name (map fst ps) route) \<longrightarrow>
       (\<exists>kvs. get_prop (snd (fst (attachResource H a context route (Resource (Some ps) ms rs) h)))
                 (route_name (map fst ps) route)
               = Some (Obj (Some (Route (length h) route (Resource (Some ps) ms rs) (length ps))) kvs))) \<and>
    (\<not> (route_test route \<and> route_name (map fst ps) route \<notin> set RESERVED_METHODS) \<longrightarrow>
       fst (attachResource H a context route (Resource (Some ps) ms rs) h) = (None, context)) \<and>
    (route_test route \<and> route_name (map fst ps) route \<notin> set RESERVED_METHODS \<and>
     \<not> writable H context (route_name (map fst ps) route) \<longrightarrow>
       snd (fst (attachResource H a context route (Resource (Some ps) ms rs) h)) = context) \<and>
    (takeWhile (\<lambda>c. c \<noteq> CHR ''{'') route \<noteq> [] \<longrightarrow>
       route_name (map fst ps) route = takeWhile (\<lambda>c. c \<noteq> CHR ''{'') route)"
proof (intro conjI impI)
  show "route_test route \<longleftrightarrow>
       (\<exists>pre gs. route = pre @ concat (map group_text gs) \<and> list_all is_word pre \<and>
                  gs \<noteq> [] \<and> list_all tag_body gs)"
    by (rule route_test_shape)
next
  assume "route_test route \<and> route_name (map fst ps) route \<notin> set RESERVED_METHODS \<and>
     writable H context (route_name (map fst ps) route)"
  then show "\<exists>kvs. get_prop (snd (fst (attachResource H a context route (Resource (Some ps) ms rs) h)))
                 (route_name (map fst ps) route)
               = Some (Obj (Some (Route (length h) route (Resource (Some ps) ms rs) (length ps))) kvs)"
    using attachResource_attached [OF assms] by blast
next
  assume "\<not> (route_test route \<and> route_name (map fst ps) route \<notin> set RESERVED_METHODS)"
  then show "fst (attachResource H a context route (Resource (Some ps) ms rs) h) = (None, context)"
    using attachResource_skipped [OF assms] by simp
next
  assume "route_test route \<and> route_name (map fst ps) route \<notin> set RESERVED_METHODS \<and>
     \<not> writable H context (route_name (map fst ps) route)"
  then show "snd (fst (attachResource H a context route (Resource (Some ps) ms rs) h)) = context"
    using attachResource_unwritable [OF assms] by blast
next
  assume "takeWhile (\<lambda>c. c \<noteq> CHR ''{'') route \<noteq> []"
  then show "route_name (map fst ps) route = takeWhile (\<lambda>c. c \<noteq> CHR ''{'') route"
    by (rule route_name_prefix)
qed

theorem dynamic_route_attached_witness:
  "[(''id'', bare_param (JStr ''string''))] \<noteq> [] \<and>
   route_test ''user_{id}'' \<and>
   route_name (map fst [(''id'', bare_param (JStr ''string''))]) ''user_{id}'' = ''user_'' \<and>
   ''user_'' \<notin> set RESERVED_METHODS \<and>
   writable example_host (Obj None []) ''user_'' \<and>
   takeWhile (\<lambda>c. c \<noteq> CHR ''{'') ''user_{id}'' \<noteq> [] \<and>
   (\<exists>kvs. get_prop (snd (fst underscore_attached)) ''user_''
      = Some (Obj (Some (Route 1 ''user_{id}'' id_resource 1)) kvs)) \<and>
   map_option url
     (send_verb
        (snd (invoke example_host (snd (fst underscore_attached)) ''user_'' [JStr ''42'']
               (snd underscore_attached)))
        (branch (invoke example_host (snd (fst underscore_attached)) ''user_'' [JStr ''42'']
               (snd underscore_attached)))
        ''get'')
     = Some ''http://api.example.com/user_42'' \<and>
   \<not> route_test ''pre-{a}-mid-{b}'' \<and>
   fst (attachResource example_host 0 (Obj None []) ''pre-{a}-mid-{b}''
          (Resource (Some [(''a'', bare_param (JStr ''string'')), (''b'', bare_param (JStr ''string''))])
             [] []) [example_root]) = (None, Obj None []) \<and>
   route_test ''length{n}'' \<and>
   route_name (map fst [(''n'', bare_param (JStr ''string''))]) ''length{n}'' = ''length'' \<and>
   ''length'' \<notin> set RESERVED_METHODS \<and>
   \<not> writable example_host root_function ''length'' \<and>
   snd (fst (attachResource example_host 0 root_function ''length{n}'' n_resource [example_root]))
     = root_function"
proof -
  have ne: "[(''id'', bare_param (JStr ''string''))] \<noteq> []" by simp
  have t: "route_test ''user_{id}''" by code_simp
  have n: "route_name (map fst [(''id'', bare_param (JStr ''string''))]) ''user_{id}'' = ''user_''"
    by code_simp
  have r: "''user_'' \<notin> set RESERVED_METHODS" by code_simp
  have w: "writable example_host (Obj None []) ''user_''" by code_simp
  have p: "takeWhile (\<lambda>c. c \<noteq> CHR ''{'') ''user_{id}'' \<noteq> []" by simp
  have s: "\<not> route_test ''pre-{a}-mid-{b}''" by code_simp
  have c: "map_option url
     (send_verb
        (snd (invoke example_host (snd (fst underscore_attached)) ''user_'' [JStr ''42'']
               (snd underscore_attached)))
        (branch (invoke example_host (snd (fst underscore_attached)) ''user_'' [JStr ''42'']
               (snd underscore_attached)))
        ''get'')
     = Some ''http://api.example.com/user_42''"
    by code_simp
  have len: "length [example_root] = 1" "length [(''id'', bare_param (JStr ''string''))] = 1"
    by simp_all
  from dynamic_route_attached [OF ne, of "''user_{id}''" example_host "Obj None []" 0
      "[(''get'', Method ''get'')]" "[]" "[example_root]"] t r w
  have a: "\<exists>kvs. get_prop (snd (fst underscore_attached)) ''user_''
      = Some (Obj (Some (Route 1 ''user_{id}'' id_resource 1)) kvs)"
    unfolding underscore_attached_def id_resource_def n len by blast
  from dynamic_route_attached [of "[(''a'', bare_param (JStr ''string'')), (''b'', bare_param (JStr ''string''))]"
      "''pre-{a}-mid-{b}''" example_host "Obj None []" 0 "[]" "[]" "[example_root]"] s
  have k: "fst (attachResource example_host 0 (Obj None []) ''pre-{a}-mid-{b}''
          (Resource (Some [(''a'', bare_param (JStr ''string'')), (''b'', bare_param (JStr ''string''))])
             [] []) [example_root]) = (None, Obj None [])"
    by simp
  have ne': "[(''n'', bare_param (JStr ''string''))] \<noteq> []" by simp
  have t': "route_test ''length{n}''" by code_simp
  have n': "route_name (map fst [(''n'', bare_param (JStr ''string''))]) ''length{n}'' = ''length''"
    by code_simp
  have r': "''length'' \<notin> set RESERVED_METHODS" by code_simp
  have w': "\<not> writable example_host root_function ''length''" by code_simp
  from dynamic_route_attached [OF ne', of "''length{n}''" example_host root_function 0
      "[(''get'', Method ''get'')]" "[]" "[example_root]"] t' r' w'
  have u: "snd (fst (attachResource example_host 0 root_function ''length{n}'' n_resource
                       [example_root])) = root_function"
    unfolding n_resource_def n' by blast
  from ne t n r w p a c s k t' n' r' w' u show ?thesis by blast
qed

subsection \<open>The arguments of a route function\<close>

text \<open>
  C2, as stated, fails where the declared parameters are not the tags of the route:
  \<open>templateTags\<close> is \<open>_.keys(resource.uriParameters)\<close>. The route \<open>x{a}{b}\<close> of a resource
  that declares \<open>a\<close> only has two tags and one template tag; its function takes one
  argument without complaint and replaces \<open>{a}\<close> alone.
\<close>

theorem declared_tags_counterexample:
  "route_tags ''x{a}{b}'' = [''a'', ''b''] \<and>
   map_option (map fst) (uriParameters partial_resource) = Some [''a''] \<and>
   map_option call (get_prop (snd (fst partial_attached)) ''x'')
     = Some (Some (Route 1 ''x{a}{b}'' partial_resource 1)) \<and>
   fst (invoke example_host (snd (fst partial_attached)) ''x'' [JStr ''42''] (snd partial_attached))
     \<noteq> Inl InsufficientArguments \<and>
   segments (snd (invoke example_host (snd (fst partial_attached)) ''x'' [JStr ''42'']
                    (snd partial_attached)) ! 1)
     = [''x42{b}'']"
  by code_simp

text \<open>
  C2, amended. The route function of an attached dynamic route counts the names
  declared in the resource's \<open>uriParameters\<close>; called with fewer arguments than that,
  it fails with InsufficientArguments and leaves every path array as it was, whatever
  the arguments are: the template function is not reached. The route function is there
  to be called when the context takes the write that attaches it, which every plain
  object does.
\<close>

theorem route_function_arity:
  assumes "ps \<noteq> []" and "route_test route"
    and "route_name (map fst ps) route \<notin> set RESERVED_METHODS"
    and "writable H context (route_name (map fst ps) route)"
  shows
   "(\<exists>kvs. get_prop (snd (fst (attachResource H a context route (Resource (Some ps) ms rs) h)))
              (route_name (map fst ps) route)
            = Some (Obj (Some (Route (length h) route (Resource (Some ps) ms rs)
                                 (length (map fst ps)))) kvs)) \<and>
    (\<forall>arguments h'. length arguments < length (map fst ps) \<longrightarrow>
       invoke H (snd (fst (attachResource H a context route (Resource (Some ps) ms rs) h)))
         (route_name (map fst ps) route) arguments h' = (Inl InsufficientArguments, h'))"
proof -
  from attachResource_attached [OF assms, of a ms rs h] obtain kvs where
    g: "get_prop (snd (fst (attachResource H a context route (Resource (Some ps) ms rs) h)))
              (route_name (map fst ps) route)
            = Some (Obj (Some (Route (length h) route (Resource (Some ps) ms rs) (length ps))) kvs)"
    by blast
  then show ?thesis by (simp add: invoke_def call_route_def)
qed

theorem route_function_arity_witness:
  "[(''id'', bare_param (JStr ''string''))] \<noteq> [] \<and> route_test ''user_{id}'' \<and>
   route_name (map fst [(''id'', bare_param (JStr ''string''))]) ''user_{id}'' \<notin> set RESERVED_METHODS \<and>
   writable example_host (Obj None [])
     (route_name (map fst [(''id'', bare_param (JStr ''string''))]) ''user_{id}'') \<and>
   length ([] :: jsval list) < length (map fst [(''id'', bare_param (JStr ''string''))]) \<and>
   invoke example_host (snd (fst underscore_attached)) ''user_'' [] (snd underscore_attached)
     = (Inl InsufficientArguments, snd underscore_attached)"
proof -
  have ne: "[(''id'', bare_param (JStr ''string''))] \<noteq> []" by simp
  have t: "route_test ''user_{id}''" by code_simp
  have n: "route_name (map fst [(''id'', bare_param (JStr ''string''))]) ''user_{id}'' = ''user_''"
    by code_simp
  have r: "route_name (map fst [(''id'', bare_param (JStr ''string''))]) ''user_{id}''
      \<notin> set RESERVED_METHODS"
    by code_simp
  have w: "writable example_host (Obj None [])
     (route_name (map fst [(''id'', bare_param (JStr ''string''))]) ''user_{id}'')"
    by code_simp
  from route_function_arity [OF ne t r w, of 0 "[(''get'', Method ''get'')]" "[]" "[example_root]"]
  have "invoke example_host (snd (fst underscore_attached)) ''user_'' [] (snd underscore_attached)
     = (Inl InsufficientArguments, snd underscore_attached)"
    unfolding underscore_attached_def id_resource_def n by simp
  with ne t r w show ?thesis by simp
qed

text \<open>
  Wherever a route function is held, under whatever name and in whatever context, a
  call with fewer arguments than its count fails with InsufficientArguments and leaves
  the heap as it was.
\<close>

lemma route_function_insufficient:
  "get_prop c name = Some (Obj (Some (Route r route res n)) kvs) \<Longrightarrow> length arguments < n \<Longrightarrow>
     invoke H c name arguments h = (Inl InsufficientArguments, h)"
  by (simp add: invoke_def call_route_def)

text \<open>
  Where the declared names are the tags of the route, the count is the number of tags
  in the route.
\<close>

lemma route_function_counts_route_tags:
  assumes "ps \<noteq> []" and "route_test route"
    and "route_name (map fst ps) route \<notin> set RESERVED_METHODS"
    and "writable H context (route_name (map fst ps) route)"
    and "map fst ps = route_tags route"
    and "length arguments < length (route_tags route)"
  shows "invoke H (snd (fst (attachResource H a context route (Resource (Some ps) ms rs) h)))
           (route_name (map fst ps) route) arguments h' = (Inl InsufficientArguments, h')"
proof -
  from attachResource_attached [OF assms(1-4), of a ms rs h] obtain kvs where
    "get_prop (snd (fst (attachResource H a context route (Resource (Some ps) ms rs) h)))
              (route_name (map fst ps) route)
            = Some (Obj (Some (Route (length h) route (Resource (Some ps) ms rs) (length ps))) kvs)"
    by blast
  moreover have "length arguments < length ps"
    using assms(5,6) by (metis length_map)
  ultimately show ?thesis by (simp add: invoke_def call_route_def)
qed

subsection \<open>What earlier branches see of later calls\<close>

text \<open>
  The attach functions only allocate: the heap they return extends the heap they were
  given, whether or not they throw.
\<close>

lemma attach_extends:
  "\<exists>ext. snd (attachQuery H ns c ms h) = h @ ext"
  "\<exists>ext. snd (attachHeaders H ns c ms h) = h @ ext"
  "\<exists>ext. snd (attachMethods H a c ms h) = h @ ext"
proof (induction H ns c ms h and H ns c ms h and H a c ms h
    rule: attachQuery_attachHeaders_attachMethods.induct)
  case (1 H ns c ms h)
  let ?h1 = "h @ [ns\<lparr>query := Some Null\<rparr>]"
  show ?case
  proof (cases "query ns \<noteq> None")
    case True
    then show ?thesis by (simp add: attachQuery.simps)
  next
    case False
    show ?thesis
    proof (cases "assign H ''query'' (Obj (Some (Query (length h) ms)) []) c")
      case (Inl e)
      then show ?thesis using False by (simp add: attachQuery.simps [of H ns c ms h] alloc_def)
    next
      case (Inr c1)
      from 1 [OF False, of "length h" ?h1 c1] Inr
      obtain ext where "snd (attachMethods H (length h) (Obj None []) ms ?h1) = ?h1 @ ext"
        by (auto simp: alloc_def)
      then show ?thesis using False Inr
        by (auto simp: attachQuery.simps [of H ns c ms h] alloc_def split: prod.splits option.splits)
    qed
  qed
next
  case (2 H ns c ms h)
  let ?h1 = "h @ [ns\<lparr>headers := Some Null\<rparr>]"
  show ?case
  proof (cases "headers ns \<noteq> None")
    case True
    then show ?thesis by (simp add: attachHeaders.simps)
  next
    case False
    show ?thesis
    proof (cases "assign H ''headers'' (Obj (Some (Headers (length h) ms)) []) c")
      case (Inl e)
      then show ?thesis using False by (simp add: attachHeaders.simps [of H ns c ms h] alloc_def)
    next
      case (Inr c1)
      from 2 [OF False, of "length h" ?h1 c1] Inr
      obtain ext where "snd (attachMethods H (length h) (Obj None []) ms ?h1) = ?h1 @ ext"
        by (auto simp: alloc_def)
      then show ?thesis using False Inr
        by (auto simp: attachHeaders.simps [of H ns c ms h] alloc_def split: prod.splits option.splits)
    qed
  qed
next
  case (3 H a c ms h)
  obtain e1 c1 h1 where q: "attachQuery H (h ! a) c ms h = ((e1, c1), h1)"
    by (metis prod.exhaust)
  from "3.IH"(1) q obtain x1 where x1: "h1 = h @ x1" by auto
  show ?case
  proof (cases e1)
    case (Some e)
    then show ?thesis using x1 by (simp add: attachMethods.simps [of H a c ms h] q)
  next
    case None
    obtain e2 c2 h2 where hs: "attachHeaders H (h ! a) c1 ms h1 = ((e2, c2), h2)"
      by (metis prod.exhaust)
    from "3.IH"(2) [of "(e1, c1)" h1 e1 c1] q None hs obtain x2 where x2: "h2 = h1 @ x2"
      by auto
    have "snd (attachMethods H a c ms h) = h2"
      using None by (cases e2) (simp_all add: attachMethods.simps [of H a c ms h] q hs)
    then show ?thesis using x1 x2 by simp
  qed
qed

lemma attachMethods_extends: "\<exists>ext. snd (attachMethods H a c ms h) = h @ ext"
  by (rule attach_extends)

lemma snd_returned: "snd (returned r) = snd r"
  by (auto simp: returned_def split: prod.splits option.splits)

lemma attachResources_extends:
  "\<exists>ext. snd (attachResources H a c rs h) = h @ ext"
  "\<exists>ext. snd (attachResource H a c route r h) = h @ ext"
proof (induction H a c rs h and H a c route r h rule: attachResources_attachResource.induct)
  case (1 H a c h)
  show ?case by simp
next
  case (2 H a c route resource rest h)
  obtain e1 c1 h1 where s: "attachResource H a c route resource h = ((e1, c1), h1)"
    by (metis prod.exhaust)
  from "2.IH"(1) s obtain x1 where x1: "h1 = h @ x1" by auto
  show ?case
  proof (cases e1)
    case (Some e)
    then show ?thesis using x1 by (simp add: s)
  next
    case None
    from "2.IH"(2) [of "(e1, c1)" h1 e1 c1] s None obtain x2 where
      "snd (attachResources H a c1 rest h1) = h1 @ x2" by auto
    then show ?thesis using x1 None by (simp add: s)
  qed
next
  case (3 H a c route up ms rs h)
  let ?h1 = "h @ [(h ! a)\<lparr>segments := segments (h ! a) @ [route]\<rparr>]"
  let ?after = "\<lambda>c0. case attachMethods H (length h) c0 ms ?h1 of
                       ((Some e, c1), h2) \<Rightarrow> h2
                     | ((None, c1), h2) \<Rightarrow> snd (attachResources H (length h) c1 rs h2)"
  have al: "alloc ((h ! a)\<lparr>segments := segments (h ! a) @ [route]\<rparr>) h = (length h, ?h1)"
    by (simp add: alloc_def)
  have step: "\<exists>ext. ?after c0 = h @ ext"
    if ih: "\<And>c1 h2. attachMethods H (length h) c0 ms ?h1 = ((None, c1), h2) \<Longrightarrow>
              \<exists>ext. snd (attachResources H (length h) c1 rs h2) = h2 @ ext" for c0
  proof -
    obtain e1 c1 h2 where m: "attachMethods H (length h) c0 ms ?h1 = ((e1, c1), h2)"
      by (metis prod.exhaust)
    from attachMethods_extends [of H "length h" c0 ms ?h1] m obtain x1 where x1: "h2 = ?h1 @ x1"
      by auto
    show ?thesis
    proof (cases e1)
      case (Some e)
      then show ?thesis using x1 by (simp add: m)
    next
      case None
      from ih [of c1 h2] m None obtain x2 where
        "snd (attachResources H (length h) c1 rs h2) = h2 @ x2" by auto
      then show ?thesis using x1 None by (simp add: m)
    qed
  qed
  have here: "\<exists>ext. ?h1 = h @ ext" by blast
  show ?case
  proof (cases "case up of None \<Rightarrow> [] | Some ps \<Rightarrow> map fst ps")
    case Nil
    show ?thesis
    proof (cases "read_prop H c route")
      case (Inl e)
      then show ?thesis using Nil by (simp add: al)
    next
      case (Inr found)
      show ?thesis
      proof (cases "truthy_obj found")
        case True
        have "snd (attachResource H a c route (Resource up ms rs) h) = ?after found"
          using Nil Inr True by (simp add: al split: prod.splits option.splits)
        moreover have "\<exists>ext. ?after found = h @ ext"
        proof (rule step)
          fix c1 h2
          assume "attachMethods H (length h) found ms ?h1 = ((None, c1), h2)"
          from "3.IH"(1) [OF al [symmetric] Nil Inr True this [symmetric] refl refl]
          show "\<exists>ext. snd (attachResources H (length h) c1 rs h2) = h2 @ ext" .
        qed
        ultimately show ?thesis by simp
      next
        case False
        show ?thesis
        proof (cases "assign H route (Obj None []) c")
          case (Inl e)
          then show ?thesis using Nil Inr False by (simp add: al)
        next
          case c0: (Inr c0)
          have "snd (attachResource H a c route (Resource up ms rs) h) = ?after (Obj None [])"
            using Nil Inr False c0 by (simp add: al split: prod.splits option.splits)
          moreover have "\<exists>ext. ?after (Obj None []) = h @ ext"
          proof (rule step)
            fix c1 h2
            assume "attachMethods H (length h) (Obj None []) ms ?h1 = ((None, c1), h2)"
            from "3.IH"(2) [OF al [symmetric] Nil Inr False c0 this [symmetric] refl refl]
            show "\<exists>ext. snd (attachResources H (length h) c1 rs h2) = h2 @ ext" .
          qed
          ultimately show ?thesis by simp
        qed
      qed
    qed
  next
    case (Cons t ts)
    show ?thesis
    proof (cases "route_test route \<and> route_name (t # ts) route \<notin> set RESERVED_METHODS")
      case False
      then show ?thesis using Cons by (auto simp: al)
    next
      case True
      show ?thesis
      proof (cases "read_prop H c (route_name (t # ts) route)")
        case (Inl e)
        then show ?thesis using Cons True by (simp add: al)
      next
        case (Inr found)
        show ?thesis
        proof (cases "assign H (route_name (t # ts) route)
                        (extend H (Obj (Some (Route (length h) route (Resource up ms rs)
                                                (length (t # ts)))) []) found) c")
          case (Inl e)
          then show ?thesis using Cons True Inr by (simp add: al)
        next
          case c1: (Inr c1)
          have "snd (attachResource H a c route (Resource up ms rs) h) = ?after (Obj None [])"
            using Cons True Inr c1 by (simp add: al split: prod.splits option.splits)
          moreover have "\<exists>ext. ?after (Obj None []) = h @ ext"
          proof (rule step)
            fix r1 h2
            assume "attachMethods H (length h) (Obj None []) ms ?h1 = ((None, r1), h2)"
            from "3.IH"(3) [OF al [symmetric] Cons conjunct1 [OF True] conjunct2 [OF True]
                Inr c1 this [symmetric] refl refl]
            show "\<exists>ext. snd (attachResources H (length h) r1 rs h2) = h2 @ ext" .
          qed
          ultimately show ?thesis by simp
        qed
      qed
    qed
  qed
qed

text \<open>
  A call of a helper or of a route function writes to the one array its closure holds
  and allocates; every other array is left as it was. A call of \<open>query\<close> or of a route
  function leaves \<open>headers\<close> as they were everywhere, so every request function made
  before sends what it sent; a call of \<open>headers\<close> leaves the request functions on other
  arrays alone and changes what the ones on its own array send.
\<close>

lemma nth_extended_update:
  "a < length h \<Longrightarrow> (h[r := x] @ ext) ! a = (if a = r then x else h ! a)"
  by (simp add: nth_append nth_list_update)

lemma attachMethods_cells:
  assumes "a < length h"
  shows "snd (attachMethods H r c ms (h[i := x])) ! a = (if a = i then x else h ! a)"
proof -
  obtain ext where "snd (attachMethods H r c ms (h[i := x])) = h[i := x] @ ext"
    using attachMethods_extends by blast
  then show ?thesis using assms by (simp add: nth_extended_update)
qed

lemma call_query_cells:
  assumes "a < length h"
  shows "snd (call_query H r ms q h) ! a =
     (if a = r then (h ! r)\<lparr>query := Some (if isObject q then JStr (qs_stringify H q) else q)\<rparr>
      else h ! a)"
  using assms by (simp add: call_query_def snd_returned attachMethods_cells)

lemma call_headers_cells:
  assumes "a < length h" and "isObject hs \<or> hs = Null"
  shows "snd (call_headers H r ms hs h) ! a =
     (if a = r then (h ! r)\<lparr>headers := Some hs\<rparr> else h ! a)"
  using assms by (auto simp: call_headers_def snd_returned attachMethods_cells)

lemma call_route_cells:
  assumes "a < length h"
  shows "headers (snd (call_route H r route res n args h) ! a) = headers (h ! a) \<and>
         query (snd (call_route H r route res n args h) ! a) = query (h ! a)"
proof (cases "length args < n")
  case True
  then show ?thesis by (simp add: call_route_def)
next
  case False
  show ?thesis
  proof (cases "template H route (uriParameters res) (JArr args)")
    case (Inl e)
    then show ?thesis using False by (simp add: call_route_def)
  next
    case (Inr s)
    let ?h = "h[r := (h ! r)\<lparr>segments := (segments (h ! r))[length (segments (h ! r)) - 1 := s]\<rparr>]"
    obtain e1 c1 h1 where m: "attachMethods H r (Obj None []) (methods res) ?h = ((e1, c1), h1)"
      by (metis prod.exhaust)
    from attachMethods_extends [of H r "Obj None []" "methods res" ?h] m
    obtain x1 where x1: "h1 = ?h @ x1" by auto
    from attachResources_extends(1) [of H r c1 "resources res" h1]
    obtain x2 where x2: "snd (attachResources H r c1 (resources res) h1) = h1 @ x2" by auto
    have "snd (call_route H r route res n args h) = ?h @ x1 \<or>
          snd (call_route H r route res n args h) = ?h @ (x1 @ x2)"
      using False Inr m x1 x2 by (cases e1) (simp_all add: call_route_def snd_returned)
    then show ?thesis using assms by (auto simp: nth_extended_update)
  qed
qed

lemma query_call_keeps_requests:
  "a < length h \<Longrightarrow>
     send (snd (call_query H r ms q h)) (Request u m a) = send h (Request u m a)"
  by (simp add: send_def call_query_cells)

lemma route_call_keeps_requests:
  "a < length h \<Longrightarrow>
     send (snd (call_route H r route res n args h)) (Request u m a) = send h (Request u m a)"
  by (simp add: send_def call_route_cells)

lemma headers_call_keeps_other_requests:
  assumes "a < length h" and "a \<noteq> r"
  shows "send (snd (call_headers H r ms hs h)) (Request u m a) = send h (Request u m a)"
proof (cases "isObject hs \<or> hs = Null")
  case True
  from call_headers_cells [OF assms(1) True, of H r ms] assms(2) show ?thesis
    by (simp add: send_def)
next
  case False
  then show ?thesis by (simp add: call_headers_def)
qed

lemma headers_call_changes_own_requests:
  "r < length h \<Longrightarrow> isObject hs \<or> hs = Null \<Longrightarrow>
     send (snd (call_headers H r ms hs h)) (Request u m r)
       = Some \<lparr>url = u, http_method = method_name m, sent_headers = hs\<rparr>"
  by (simp add: send_def call_headers_cells)

text \<open>
  C3. On the node \<open>users\<close> of the example client, \<open>headers({X: '1'})\<close> returns a branch
  whose \<open>get\<close> sends \<open>{X: '1'}\<close>; after a second call \<open>headers({Y: '2'})\<close> on the same node,
  the \<open>get\<close> of that first branch sends \<open>{Y: '2'}\<close>. Both calls write to the one array
  that the helper's closure holds, and the request function reads \<open>nodes.headers\<close> when
  it is called.
\<close>

theorem later_headers_shown:
  "map_option sent_headers (send_verb (snd first_headers) (branch first_headers) ''get'')
     = Some (JObj [(''X'', JStr ''1'')]) \<and>
   map_option sent_headers (send_verb (snd second_headers) (branch first_headers) ''get'')
     = Some (JObj [(''Y'', JStr ''2'')])"
  by code_simp

text \<open>The query string is resolved into the URL when a branch is built, and stays.\<close>

lemma later_query_not_shown:
  "map_option url (send_verb (snd first_query) (branch first_query) ''get'')
     = Some ''http://api.example.com/users?a=1'' \<and>
   map_option url (send_verb (snd second_query) (branch first_query) ''get'')
     = Some ''http://api.example.com/users?a=1'' \<and>
   map_option url (send_verb (snd second_query) (branch second_query) ''get'')
     = Some ''http://api.example.com/users?b=2''"
  by code_simp

end
